theory Spec2Isabelle
  imports Main "HOL-Library.Word"
begin

unbundle bit_operations_syntax

section \<open>ESP32 voice assistant: model of \<open>main.cpp\<close> and \<open>config.h\<close>\<close>

text \<open>
  The target is a 32-bit ESP32: \<open>int\<close>, \<open>long\<close>, \<open>unsigned long\<close> and \<open>size_t\<close> are all
  32 bits wide, \<open>int16_t\<close> is 16 bits and memory is little-endian. Machine integers whose
  wrap-around can matter are words; byte counts that the code keeps below a bound it
  checks itself are natural numbers.
\<close>

type_synonym u8 = "8 word"
type_synonym u16 = "16 word"
type_synonym u32 = "32 word"

text \<open>
  A \<open>uint8_t*\<close> into the PSRAM capture buffer is a store from byte offsets to bytes; pointer
  arithmetic \<open>buffer + k\<close> is an explicit base offset.
\<close>

type_synonym mem = "nat \<Rightarrow> u8"

subsection \<open>Constants of \<open>config.h\<close>\<close>

definition BUTTON_DEBOUNCE_MS :: u32 where
  "BUTTON_DEBOUNCE_MS = 50"

definition SAMPLE_RATE :: u32 where
  "SAMPLE_RATE = 16000"

definition BITS_PER_SAMPLE :: u32 where
  "BITS_PER_SAMPLE = 16"

definition CHANNELS :: u32 where
  "CHANNELS = 1"

definition RECORD_TIME_MAX_SEC :: u32 where
  "RECORD_TIME_MAX_SEC = 30"

definition RECORD_BUFFER_SIZE :: u32 where
  "RECORD_BUFFER_SIZE = SAMPLE_RATE * 2 * RECORD_TIME_MAX_SEC"

definition MIC_GAIN_FACTOR :: u32 where
  "MIC_GAIN_FACTOR = 4"

definition HTTP_RESPONSE_TIMEOUT_MS :: u32 where
  "HTTP_RESPONSE_TIMEOUT_MS = 60000"

subsection \<open>Bytes and characters\<close>

definition bytes_of :: "string \<Rightarrow> u8 list" where
  "bytes_of s = map of_char s"

text \<open>The little-endian layouts the WAV format asks for, on numbers.\<close>

definition le_u16 :: "nat \<Rightarrow> u8 list" where
  "le_u16 n = [of_nat (n mod 256), of_nat (n div 256 mod 256)]"

definition le_u32 :: "nat \<Rightarrow> u8 list" where
  "le_u32 n = [of_nat (n mod 256), of_nat (n div 256 mod 256),
               of_nat (n div 65536 mod 256), of_nat (n div 16777216 mod 256)]"

subsection \<open>\<open>createWavHeader\<close>\<close>

text \<open>
  \<open>buffer[k] = e\<close> stores the low eight bits of \<open>e\<close>. The macros are \<open>int\<close> expressions with
  non-negative values, so \<open>/\<close> is \<open>div\<close>.
\<close>

definition createWavHeader :: "mem \<Rightarrow> u32 \<Rightarrow> mem \<times> u32" where
  "createWavHeader buffer dataSize =
     (let fileSize = dataSize + 36;
          byteRate = SAMPLE_RATE * CHANNELS * BITS_PER_SAMPLE div 8;
          blockAlign = (ucast (CHANNELS * BITS_PER_SAMPLE div 8) :: u16)
      in (buffer
           (0 := of_char CHR ''R'', 1 := of_char CHR ''I'',
            2 := of_char CHR ''F'', 3 := of_char CHR ''F'',
            4 := ucast (fileSize AND 0xFF),
            5 := ucast (drop_bit 8 fileSize AND 0xFF),
            6 := ucast (drop_bit 16 fileSize AND 0xFF),
            7 := ucast (drop_bit 24 fileSize AND 0xFF),
            8 := of_char CHR ''W'', 9 := of_char CHR ''A'',
            10 := of_char CHR ''V'', 11 := of_char CHR ''E'',
            12 := of_char CHR ''f'', 13 := of_char CHR ''m'',
            14 := of_char CHR ''t'', 15 := of_char CHR '' '',
            16 := 16, 17 := 0, 18 := 0, 19 := 0,
            20 := 1, 21 := 0,
            22 := ucast CHANNELS, 23 := 0,
            24 := ucast (SAMPLE_RATE AND 0xFF),
            25 := ucast (drop_bit 8 SAMPLE_RATE AND 0xFF),
            26 := ucast (drop_bit 16 SAMPLE_RATE AND 0xFF),
            27 := ucast (drop_bit 24 SAMPLE_RATE AND 0xFF),
            28 := ucast (byteRate AND 0xFF),
            29 := ucast (drop_bit 8 byteRate AND 0xFF),
            30 := ucast (drop_bit 16 byteRate AND 0xFF),
            31 := ucast (drop_bit 24 byteRate AND 0xFF),
            32 := ucast (blockAlign AND 0xFF),
            33 := ucast (drop_bit 8 blockAlign AND 0xFF),
            34 := ucast BITS_PER_SAMPLE, 35 := 0,
            36 := of_char CHR ''d'', 37 := of_char CHR ''a'',
            38 := of_char CHR ''t'', 39 := of_char CHR ''a'',
            40 := ucast (dataSize AND 0xFF),
            41 := ucast (drop_bit 8 dataSize AND 0xFF),
            42 := ucast (drop_bit 16 dataSize AND 0xFF),
            43 := ucast (drop_bit 24 dataSize AND 0xFF)),
          44))"

subsection \<open>\<open>recordAudio\<close>\<close>

text \<open>
  The body of the gain loop for one sample: \<open>newSamples[i]\<close> is promoted to \<open>int\<close>,
  multiplied, clamped with two signed comparisons and narrowed back to \<open>int16_t\<close>.
\<close>

definition gain_sample :: "u16 \<Rightarrow> u16" where
  "gain_sample x =
     (let sample = (scast x :: u32) * MIC_GAIN_FACTOR;
          sample = (if 32767 <s sample then 32767 else sample);
          sample = (if sample <s - 32768 then - 32768 else sample)
      in ucast sample)"

text \<open>An \<open>int16_t\<close> read and write through the byte store, low byte first.\<close>

definition load16 :: "mem \<Rightarrow> nat \<Rightarrow> u16" where
  "load16 buf a = ucast (buf a) OR push_bit 8 (ucast (buf (a + 1)))"

definition store16 :: "mem \<Rightarrow> nat \<Rightarrow> u16 \<Rightarrow> mem" where
  "store16 buf a v = buf(a := ucast v, a + 1 := ucast (drop_bit 8 v))"

text \<open>
  \<open>for (size_t i = 0; i < numSamples; i++)\<close> over \<open>newSamples = buffer + totalBytesRead\<close>.
\<close>

function gainLoop :: "nat \<Rightarrow> nat \<Rightarrow> nat \<Rightarrow> mem \<Rightarrow> mem" where
  "gainLoop newSamples numSamples i buf =
     (if i < numSamples
      then gainLoop newSamples numSamples (i + 1)
             (store16 buf (newSamples + 2 * i) (gain_sample (load16 buf (newSamples + 2 * i))))
      else buf)"
  by pat_completeness auto
termination
  by (relation "measure (\<lambda>(newSamples, numSamples, i, buf). numSamples - i)") auto

declare gainLoop.simps [simp del]

text \<open>
  What one pass of the capture loop sees from outside: the clock at the time check, and
  the outcome of \<open>i2s_read\<close>. The driver copies at most the requested \<open>toRead\<close> bytes; with a
  result other than \<open>ESP_OK\<close> it copies nothing and reports zero bytes.
\<close>

record rec_pass =
  rp_millis :: u32
  rp_i2s_ok :: bool
  rp_i2s_data :: "u8 list"

definition write_bytes :: "mem \<Rightarrow> nat \<Rightarrow> u8 list \<Rightarrow> mem" where
  "write_bytes buf off data =
     (\<lambda>a. if off \<le> a \<and> a < off + length data then data ! (a - off) else buf a)"

definition i2s_read :: "rec_pass \<Rightarrow> mem \<Rightarrow> nat \<Rightarrow> nat \<Rightarrow> bool \<times> mem \<times> nat" where
  "i2s_read p buf dest sz =
     (if rp_i2s_ok p
      then (True, write_bytes buf dest (take sz (rp_i2s_data p)),
            min sz (length (rp_i2s_data p)))
      else (False, buf, 0))"

text \<open>
  The \<open>while (digitalRead(BUTTON_PIN) == LOW)\<close> loop. The list holds the passes that found
  the button held; when it is used up the pin reads high. \<open>base\<close> is the offset of the
  \<open>buffer\<close> argument in the store. The block under \<open>DEBUG_AUDIO_LEVELS\<close> is compiled out
  (the macro is \<open>false\<close>) and \<open>ledUpdate\<close> does not touch what is modelled here.
\<close>

fun recordLoop :: "nat \<Rightarrow> nat \<Rightarrow> u32 \<Rightarrow> rec_pass list \<Rightarrow> mem \<times> nat \<Rightarrow> mem \<times> nat" where
  "recordLoop base maxSize recordStart [] (buf, totalBytesRead) = (buf, totalBytesRead)"
| "recordLoop base maxSize recordStart (p # ps) (buf, totalBytesRead) =
     (if rp_millis p - recordStart > RECORD_TIME_MAX_SEC * 1000
      then (buf, totalBytesRead)
      else
        let remainingBytes = maxSize - totalBytesRead;
            toRead = min 4096 remainingBytes
        in if toRead = 0 then (buf, totalBytesRead)
           else
             (case i2s_read p buf (base + totalBytesRead) toRead of
                (ok, buf', bytesRead) \<Rightarrow>
                  if ok \<and> bytesRead > 0
                  then recordLoop base maxSize recordStart ps
                         (gainLoop (base + totalBytesRead) (bytesRead div 2) 0 buf',
                          totalBytesRead + bytesRead)
                  else recordLoop base maxSize recordStart ps (buf', totalBytesRead)))"

definition recordAudio :: "mem \<Rightarrow> nat \<Rightarrow> nat \<Rightarrow> u32 \<Rightarrow> rec_pass list \<Rightarrow> mem \<times> nat" where
  "recordAudio buf base maxSize recordStart passes =
     recordLoop base maxSize recordStart passes (buf, 0)"

text \<open>
  The \<open>j\<close>-th 16-bit sample of a sequence of bytes delivered by the driver, low byte
  first.
\<close>

definition sample_le :: "u8 list \<Rightarrow> nat \<Rightarrow> u16" where
  "sample_le bytes j = ucast (bytes ! (2 * j)) OR push_bit 8 (ucast (bytes ! (2 * j + 1)))"

text \<open>
  One pass of the capture loop from the loop state \<open>(buffer, totalBytesRead)\<close>: \<open>None\<close>
  when the pass leaves the loop (time is up or the buffer is full), the next loop state
  otherwise.
\<close>

definition recordPass :: "nat \<Rightarrow> nat \<Rightarrow> u32 \<Rightarrow> rec_pass \<Rightarrow> mem \<times> nat \<Rightarrow> (mem \<times> nat) option" where
  "recordPass base maxSize recordStart p s =
     (if rp_millis p - recordStart > RECORD_TIME_MAX_SEC * 1000 \<or> maxSize \<le> snd s then None
      else Some (recordLoop base maxSize recordStart [p] s))"

subsection \<open>Arduino \<open>String\<close> operations used by the HTTP client\<close>

text \<open>
  A \<open>String\<close> is its sequence of bytes. The operations follow the Arduino core:
  \<open>substring\<close> swaps its bounds when they are out of order and cuts them to the length,
  \<open>trim\<close> strips \<open>isspace\<close> characters at both ends, \<open>toInt\<close> is \<open>atol\<close> (leading white
  space, an optional sign, then digits; 0 when there is no digit), saturated to the range
  of \<open>long\<close>, and \<open>String(n)\<close> of an unsigned number is its decimal numeral.
\<close>

definition CRLF :: string where
  "CRLF = [CHR 0x0D, CHR 0x0A]"

definition quoted :: "string \<Rightarrow> string" where
  "quoted s = [CHR 0x22] @ s @ [CHR 0x22]"

fun String_of_nat :: "nat \<Rightarrow> string" where
  "String_of_nat n =
     (if n < 10 then [''0123456789'' ! n]
      else String_of_nat (n div 10) @ [''0123456789'' ! (n mod 10)])"

declare String_of_nat.simps [simp del]

definition isspace :: "char \<Rightarrow> bool" where
  "isspace c = (c \<in> set [CHR '' '', CHR 0x09, CHR 0x0A, CHR 0x0B, CHR 0x0C, CHR 0x0D])"

definition isdigit :: "char \<Rightarrow> bool" where
  "isdigit c = (c \<in> set ''0123456789'')"

definition trim :: "string \<Rightarrow> string" where
  "trim s = rev (dropWhile isspace (rev (dropWhile isspace s)))"

definition substring :: "string \<Rightarrow> nat \<Rightarrow> nat \<Rightarrow> string" where
  "substring s left right =
     (let l = (if left > right then right else left);
          r = (if left > right then left else right)
      in if l \<ge> length s then []
         else take ((if r > length s then length s else r) - l) (drop l s))"

definition substring_from :: "string \<Rightarrow> nat \<Rightarrow> string" where
  "substring_from s left = substring s left (length s)"

definition startsWith :: "string \<Rightarrow> string \<Rightarrow> bool" where
  "startsWith s pre = (length pre \<le> length s \<and> take (length pre) s = pre)"

fun atol_digits :: "string \<Rightarrow> int \<Rightarrow> int" where
  "atol_digits [] acc = acc"
| "atol_digits (c # cs) acc =
     (if isdigit c then atol_digits cs (acc * 10 + (of_char c - 48)) else acc)"

definition toInt :: "string \<Rightarrow> int" where
  "toInt s =
     (let v = (case dropWhile isspace s of
                 [] \<Rightarrow> 0
               | c # cs \<Rightarrow>
                   if c = CHR ''-'' then - atol_digits cs 0
                   else if c = CHR ''+'' then atol_digits cs 0
                   else atol_digits (c # cs) 0)
      in max (- 2147483648) (min 2147483647 v))"

subsection \<open>\<open>sendVoiceRequest\<close>\<close>

definition SERVER_HOST :: string where
  "SERVER_HOST = ''192.168.50.5''"

definition VOICE_ENDPOINT :: string where
  "VOICE_ENDPOINT = ''/voice/process''"

text \<open>
  The multipart boundary, from \<open>millis()\<close> (an \<open>unsigned long\<close>), and the three strings
  the function builds around the WAV payload, statement by statement.
\<close>

definition boundary_of :: "u32 \<Rightarrow> string" where
  "boundary_of ms = ''----ESP32Boundary'' @ String_of_nat (unat ms)"

definition bodyStart :: "string \<Rightarrow> string" where
  "bodyStart boundary =
     (let bodyStart = ''--'' @ boundary @ CRLF;
          bodyStart = bodyStart @ (''Content-Disposition: form-data; name='' @ quoted ''audio''
                        @ ''; filename='' @ quoted ''recording.wav'' @ CRLF)
      in bodyStart @ (''Content-Type: audio/wav'' @ CRLF @ CRLF))"

definition bodyMid :: "string \<Rightarrow> string \<Rightarrow> string" where
  "bodyMid boundary sessionId =
     (let bodyMid = CRLF;
          bodyMid =
            (if length sessionId > 0
             then ((bodyMid @ (''--'' @ boundary @ CRLF))
                    @ (''Content-Disposition: form-data; name='' @ quoted ''session_id''
                        @ CRLF @ CRLF))
                    @ (sessionId @ CRLF)
             else bodyMid);
          bodyMid = bodyMid @ (''--'' @ boundary @ CRLF);
          bodyMid = bodyMid @ (''Content-Disposition: form-data; name='' @ quoted ''use_rag''
                      @ CRLF @ CRLF)
      in bodyMid @ (''true'' @ CRLF))"

definition bodyEnd :: "string \<Rightarrow> string" where
  "bodyEnd boundary = ''--'' @ boundary @ ''--'' @ CRLF"

text \<open>
  \<open>while (sent < wavSize)\<close>: each \<open>client.write(wavData + sent, toSend)\<close> hands the next
  \<open>toSend\<close> bytes of the buffer to the socket.
\<close>

function sendWavChunks :: "mem \<Rightarrow> nat \<Rightarrow> nat \<Rightarrow> u8 list \<Rightarrow> u8 list" where
  "sendWavChunks wavData wavSize sent out =
     (if sent < wavSize
      then sendWavChunks wavData wavSize (sent + min 4096 (wavSize - sent))
             (out @ map wavData [sent..<sent + min 4096 (wavSize - sent)])
      else out)"
  by pat_completeness auto
termination
  by (relation "measure (\<lambda>(wavData, wavSize, sent, out). wavSize - sent)") auto

declare sendWavChunks.simps [simp del]

text \<open>
  Everything the function hands to the socket with \<open>client.print\<close> and \<open>client.write\<close>, in
  order. \<open>ms\<close> is the value of \<open>millis()\<close> in the boundary; \<open>totalSize\<close> is a \<open>size_t\<close>
  sum. The \<open>HTTPClient\<close> object is set up but never used to send, so it is left out.
\<close>

definition sendRequest :: "string \<Rightarrow> mem \<Rightarrow> nat \<Rightarrow> u32 \<Rightarrow> u8 list" where
  "sendRequest sessionId wavData wavSize ms =
     (let boundary = boundary_of ms;
          totalSize = (length (bodyStart boundary) + wavSize
                        + length (bodyMid boundary sessionId)
                        + length (bodyEnd boundary)) mod 2 ^ 32;
          out = bytes_of (''POST '' @ VOICE_ENDPOINT @ '' HTTP/1.1'' @ CRLF);
          out = out @ bytes_of (''Host: '' @ SERVER_HOST @ CRLF);
          out = out @ bytes_of (''Content-Type: multipart/form-data; boundary='' @ boundary
                                 @ CRLF);
          out = out @ bytes_of (''Content-Length: '' @ String_of_nat totalSize @ CRLF);
          out = out @ bytes_of (''Connection: close'' @ CRLF);
          out = out @ bytes_of CRLF;
          out = out @ bytes_of (bodyStart boundary);
          out = sendWavChunks wavData wavSize 0 out;
          out = out @ bytes_of (bodyMid boundary sessionId)
      in out @ bytes_of (bodyEnd boundary))"

text \<open>
  The header loop: one \<open>readStringUntil\<close> line per pass while data is available, ending
  at the first line that is empty after \<open>trim\<close>. The state is
  \<open>(responseSessionId, transcription, contentLength)\<close>.
\<close>

fun parseHeaders :: "string list \<Rightarrow> string \<times> string \<times> int \<Rightarrow> string \<times> string \<times> int" where
  "parseHeaders [] st = st"
| "parseHeaders (line # rest) (responseSessionId, transcription, contentLength) =
     (let header = trim line
      in if length header = 0 then (responseSessionId, transcription, contentLength)
         else if startsWith header ''X-Session-Id:''
           then parseHeaders rest (trim (substring_from header 14), transcription, contentLength)
         else if startsWith header ''X-Transcription:''
           then parseHeaders rest (responseSessionId, trim (substring_from header 17),
                  contentLength)
         else if startsWith header ''Content-Length:''
           then parseHeaders rest (responseSessionId, transcription,
                  toInt (substring_from header 16))
         else parseHeaders rest (responseSessionId, transcription, contentLength))"

text \<open>
  One pass of the download loop made while \<open>client.connected()\<close> holds: how many bytes
  \<open>readBytes\<close> can deliver (0 when \<open>client.available()\<close> is 0) and how many bytes the
  file accepts from one \<open>write\<close>. When the passes are used up the peer has closed the
  connection.
\<close>

record body_pass =
  bp_avail :: nat
  bp_fs_room :: nat

fun downloadLoop :: "nat \<Rightarrow> body_pass list \<Rightarrow> nat \<Rightarrow> nat" where
  "downloadLoop contentLength [] bytesWritten = bytesWritten"
| "downloadLoop contentLength (p # ps) bytesWritten =
     (if bytesWritten < contentLength
      then
        if bp_avail p > 0
        then
          let toRead = min 4096 (contentLength - bytesWritten);
              got = min toRead (bp_avail p)
          in if got > 0
             then downloadLoop contentLength ps (bytesWritten + min got (bp_fs_room p))
             else downloadLoop contentLength ps bytesWritten
        else downloadLoop contentLength ps bytesWritten
      else bytesWritten)"

text \<open>
  What the network and the filesystem do during one call. The wait for the first byte
  of the response is represented by its outcome: whether \<open>client.available()\<close> became
  true within \<open>HTTP_RESPONSE_TIMEOUT_MS\<close>.
\<close>

record http_env =
  he_millis :: u32
  he_connect_ok :: bool
  he_response_ready :: bool
  he_status_line :: string
  he_header_lines :: "string list"
  he_fs_open_ok :: bool
  he_body :: "body_pass list"

text \<open>
  The result: the \<open>bool\<close> returned, the reference parameter \<open>responseSessionId\<close> on
  return, the bytes handed to the socket and the number of bytes written to
  \<open>/response.mp3\<close>.
\<close>

record http_result =
  hr_ok :: bool
  hr_session :: string
  hr_sent :: "u8 list"
  hr_stored :: nat

definition sendVoiceRequest ::
    "string \<Rightarrow> mem \<Rightarrow> nat \<Rightarrow> string \<Rightarrow> http_env \<Rightarrow> http_result" where
  "sendVoiceRequest sessionId wavData wavSize responseSessionId env =
     (if \<not> he_connect_ok env
      then \<lparr>hr_ok = False, hr_session = responseSessionId, hr_sent = [], hr_stored = 0\<rparr>
      else
        let out = sendRequest sessionId wavData wavSize (he_millis env)
        in if \<not> he_response_ready env
           then \<lparr>hr_ok = False, hr_session = responseSessionId, hr_sent = out, hr_stored = 0\<rparr>
           else
             let statusCode = toInt (substring (he_status_line env) 9 12)
             in if statusCode \<noteq> 200
                then \<lparr>hr_ok = False, hr_session = responseSessionId, hr_sent = out,
                       hr_stored = 0\<rparr>
                else
                  (case parseHeaders (he_header_lines env) (responseSessionId, [], 0) of
                     (sid, transcription, contentLength) \<Rightarrow>
                       if contentLength > 0
                       then
                         if \<not> he_fs_open_ok env
                         then \<lparr>hr_ok = False, hr_session = sid, hr_sent = out, hr_stored = 0\<rparr>
                         else
                           let bytesWritten = downloadLoop (nat contentLength) (he_body env) 0
                           in \<lparr>hr_ok = bytesWritten > 0, hr_session = sid, hr_sent = out,
                                hr_stored = bytesWritten\<rparr>
                       else \<lparr>hr_ok = False, hr_session = sid, hr_sent = out, hr_stored = 0\<rparr>))"

subsection \<open>Global state, the interrupt handler and the LED state\<close>

datatype SystemState =
    STATE_INIT
  | STATE_CONNECTING
  | STATE_IDLE
  | STATE_RECORDING
  | STATE_PROCESSING
  | STATE_PLAYING
  | STATE_ERROR

text \<open>
  The globals of \<open>main.cpp\<close> that the controller logic reads or writes, the value stored
  under \<open>NVS_SESSION_KEY\<close> in the preferences, and two logs of what the device does towards
  the outside: the states passed to \<open>ledSetState\<close>, in order, and the bytes handed to the
  socket by each call of \<open>sendVoiceRequest\<close>. The PWM values of the LED animation are not
  modelled.
\<close>

record sys =
  currentState :: SystemState
  sessionId :: string
  nvs_session_id :: string
  buttonPressed :: bool
  buttonPressStart :: u32
  lastDebounceTime :: u32
  recordBuffer :: mem
  recordedBytes :: nat
  led_log :: "SystemState list"
  http_log :: "u8 list list"

text \<open>\<open>buttonISR\<close>, run on a falling edge of the button pin when \<open>millis()\<close> reads \<open>t\<close>.\<close>

definition buttonISR :: "u32 \<Rightarrow> sys \<Rightarrow> sys" where
  "buttonISR t s = s\<lparr>buttonPressed := True, buttonPressStart := t\<rparr>"

definition ledSetState :: "SystemState \<Rightarrow> sys \<Rightarrow> sys" where
  "ledSetState state s = s\<lparr>currentState := state, led_log := led_log s @ [state]\<rparr>"

definition saveSessionId :: "string \<Rightarrow> sys \<Rightarrow> sys" where
  "saveSessionId sid s = s\<lparr>nvs_session_id := sid\<rparr>"

subsection \<open>\<open>processVoiceInteraction\<close>\<close>

text \<open>
  What happens around one interaction: the clock when capture starts, the passes of the
  capture loop, the network and filesystem during the request, whether
  \<open>playAudioResponse\<close> succeeds, and the falling edges on the button pin while the call
  runs. The call reads neither \<open>buttonPressed\<close> nor \<open>buttonPressStart\<close>, so the edges are
  applied when it returns. The wait for the end of playback changes none of the state
  modelled here.
\<close>

record interaction_env =
  ie_record_start :: u32
  ie_record :: "rec_pass list"
  ie_http :: http_env
  ie_play_ok :: bool
  ie_isr :: "u32 list"

definition processVoiceInteraction :: "interaction_env \<Rightarrow> sys \<Rightarrow> sys" where
  "processVoiceInteraction env s0 =
     fold buttonISR (ie_isr env)
       (let s = ledSetState STATE_RECORDING (s0\<lparr>currentState := STATE_RECORDING\<rparr>)
        in case recordAudio (recordBuffer s) 44 (unat RECORD_BUFFER_SIZE)
                  (ie_record_start env) (ie_record env) of
             (buf, n) \<Rightarrow>
               let s = s\<lparr>recordBuffer := buf, recordedBytes := n\<rparr>
               in if recordedBytes s < 1000
                  then ledSetState STATE_IDLE (s\<lparr>currentState := STATE_IDLE\<rparr>)
                  else
                    let s = s\<lparr>recordBuffer :=
                                fst (createWavHeader (recordBuffer s) (of_nat (recordedBytes s)))\<rparr>;
                        totalWavSize = recordedBytes s + 44;
                        s = ledSetState STATE_PROCESSING (s\<lparr>currentState := STATE_PROCESSING\<rparr>);
                        r = sendVoiceRequest (sessionId s) (recordBuffer s) totalWavSize []
                              (ie_http env);
                        s = s\<lparr>http_log := http_log s @ [hr_sent r]\<rparr>
                    in if \<not> hr_ok r
                       then
                         let s = ledSetState STATE_ERROR (s\<lparr>currentState := STATE_ERROR\<rparr>)
                         in ledSetState STATE_IDLE (s\<lparr>currentState := STATE_IDLE\<rparr>)
                       else
                         let s = (if length (hr_session r) > 0 \<and> hr_session r \<noteq> sessionId s
                                  then saveSessionId (hr_session r)
                                         (s\<lparr>sessionId := hr_session r\<rparr>)
                                  else s);
                             s = ledSetState STATE_PLAYING (s\<lparr>currentState := STATE_PLAYING\<rparr>);
                             s = (if \<not> ie_play_ok env
                                  then ledSetState STATE_ERROR
                                         (s\<lparr>currentState := STATE_ERROR\<rparr>)
                                  else s)
                         in ledSetState STATE_IDLE (s\<lparr>currentState := STATE_IDLE\<rparr>))"

subsection \<open>\<open>loop\<close>\<close>

text \<open>
  What one pass of \<open>loop\<close> sees: whether the Wi-Fi link is up at the first test, the
  button edges while \<open>setupWiFi\<close> blocks and whether the link is up when it returns, the
  two readings of \<open>millis()\<close> in the debounce check, the interaction if one starts, and
  the button edges during the rest of the pass (\<open>audio.loop\<close>, \<open>ledUpdate\<close>, \<open>delay(10)\<close>).
\<close>

record loop_env =
  le_wifi_up :: bool
  le_wifi_isr :: "u32 list"
  le_wifi_up_after :: bool
  le_millis_check :: u32
  le_millis_set :: u32
  le_interaction :: interaction_env
  le_tail_isr :: "u32 list"

text \<open>The block under \<open>Handle WiFi reconnection\<close>; \<open>setupWiFi\<close> blocks until it returns.\<close>

definition loop_wifi :: "loop_env \<Rightarrow> sys \<Rightarrow> sys" where
  "loop_wifi env s0 =
     (if \<not> le_wifi_up env \<and> currentState s0 \<noteq> STATE_CONNECTING
      then
        let s = ledSetState STATE_CONNECTING (s0\<lparr>currentState := STATE_CONNECTING\<rparr>);
            s = fold buttonISR (le_wifi_isr env) s
        in if le_wifi_up_after env
           then ledSetState STATE_IDLE (s\<lparr>currentState := STATE_IDLE\<rparr>)
           else s
      else s0)"

text \<open>The block under \<open>Handle button press (only in IDLE state)\<close>.\<close>

definition loop_button :: "loop_env \<Rightarrow> sys \<Rightarrow> sys" where
  "loop_button env s0 =
     (if buttonPressed s0 \<and> currentState s0 = STATE_IDLE
      then
        let pressTime = buttonPressStart s0;
            s = s0\<lparr>buttonPressed := False\<rparr>
        in if le_millis_check env - lastDebounceTime s > BUTTON_DEBOUNCE_MS
           then processVoiceInteraction (le_interaction env)
                  (s\<lparr>lastDebounceTime := le_millis_set env\<rparr>)
           else s
      else s0)"

definition loop :: "loop_env \<Rightarrow> sys \<Rightarrow> sys" where
  "loop env s0 = fold buttonISR (le_tail_isr env) (loop_button env (loop_wifi env s0))"

text \<open>The main loop: one \<open>loop\<close> pass after the other.\<close>

fun run :: "loop_env list \<Rightarrow> sys \<Rightarrow> sys" where
  "run [] s = s"
| "run (env # envs) s = run envs (loop env s)"

text \<open>
  A pass of \<open>loop\<close> starts an interaction: when the button block runs, the flag is set,
  the state is IDLE and the debounce test passes.
\<close>

definition entered :: "loop_env \<Rightarrow> sys \<Rightarrow> bool" where
  "entered env s =
     (buttonPressed (loop_wifi env s) \<and> currentState (loop_wifi env s) = STATE_IDLE \<and>
      le_millis_check env - lastDebounceTime s > BUTTON_DEBOUNCE_MS)"

text \<open>
  The number of button checks of a run before which at least one falling edge has arrived
  since the check before (\<open>pending\<close> says whether a press is already latched at the
  start): the edges of one such group are latched together in \<open>buttonPressed\<close>.
\<close>

fun edge_groups :: "bool \<Rightarrow> loop_env list \<Rightarrow> nat" where
  "edge_groups pending [] = 0"
| "edge_groups pending (env # envs) =
     (if pending \<or> le_wifi_isr env \<noteq> [] then 1 else 0)
       + edge_groups (ie_isr (le_interaction env) @ le_tail_isr env \<noteq> []) envs"

subsection \<open>The failures of a request\<close>

text \<open>
  The ways a request fails, as conditions on what the device sees, in the order in which
  \<open>sendVoiceRequest\<close> meets them: the connection is refused, no response comes in time,
  the status is not 200, \<open>Content-Length\<close> is missing or not positive, the response file
  cannot be opened, no byte of the body is stored.
\<close>

definition request_fails :: "http_env \<Rightarrow> bool" where
  "request_fails h =
     (\<not> he_connect_ok h \<or> \<not> he_response_ready h \<or>
      toInt (substring (he_status_line h) 9 12) \<noteq> 200 \<or>
      (case parseHeaders (he_header_lines h) ([], [], 0) of
         (sid, transcription, contentLength) \<Rightarrow>
           contentLength \<le> 0 \<or> \<not> he_fs_open_ok h \<or>
           downloadLoop (nat contentLength) (he_body h) 0 = 0))"

subsection \<open>The multipart body as the specification describes it\<close>

text \<open>
  Part A is the opening boundary line, the \<open>Content-Disposition\<close> header of the \<open>audio\<close>
  part with its file name, \<open>Content-Type: audio/wav\<close> and a blank line. Part B is a line
  end, a \<open>session_id\<close> form part when the cached identifier is not empty, and a \<open>use_rag\<close>
  form part with the value \<open>true\<close>. Part C is the closing boundary line.
\<close>

definition form_part :: "string \<Rightarrow> string \<Rightarrow> string \<Rightarrow> string" where
  "form_part boundary name val =
     ''--'' @ boundary @ CRLF @ ''Content-Disposition: form-data; name='' @ quoted name @ CRLF
       @ CRLF @ val @ CRLF"

definition part_A :: "string \<Rightarrow> string" where
  "part_A boundary =
     ''--'' @ boundary @ CRLF
       @ ''Content-Disposition: form-data; name='' @ quoted ''audio'' @ ''; filename=''
       @ quoted ''recording.wav'' @ CRLF
       @ ''Content-Type: audio/wav'' @ CRLF @ CRLF"

definition part_B :: "string \<Rightarrow> string \<Rightarrow> string" where
  "part_B boundary sid =
     CRLF @ (if sid = [] then [] else form_part boundary ''session_id'' sid)
       @ form_part boundary ''use_rag'' ''true''"

definition part_C :: "string \<Rightarrow> string" where
  "part_C boundary = ''--'' @ boundary @ ''--'' @ CRLF"

section \<open>Concrete scenarios\<close>

text \<open>A call whose connection is accepted and to which no response comes.\<close>

definition shape_env :: http_env where
  "shape_env = \<lparr>he_millis = 1234, he_connect_ok = True, he_response_ready = False,
     he_status_line = [], he_header_lines = [], he_fs_open_ok = False, he_body = []\<rparr>"

text \<open>
  Responses of the server: a body cut off after 4000 of the 10000 bytes declared, a
  connection closed before any byte of the body, a status 500, and a complete body.
\<close>

definition status_200_line :: string where
  "status_200_line = ''HTTP/1.1 200 OK'' @ [CHR 0x0D]"

definition truncated_env :: http_env where
  "truncated_env = \<lparr>he_millis = 1234, he_connect_ok = True, he_response_ready = True,
     he_status_line = status_200_line,
     he_header_lines = [''X-Session-Id: abc'' @ [CHR 0x0D],
                        ''Content-Length: 10000'' @ [CHR 0x0D], [CHR 0x0D]],
     he_fs_open_ok = True,
     he_body = [\<lparr>bp_avail = 4000, bp_fs_room = 4000\<rparr>]\<rparr>"

definition closed_env :: http_env where
  "closed_env = \<lparr>he_millis = 1234, he_connect_ok = True, he_response_ready = True,
     he_status_line = status_200_line,
     he_header_lines = [''Content-Length: 10000'' @ [CHR 0x0D], [CHR 0x0D]],
     he_fs_open_ok = True,
     he_body = []\<rparr>"

definition error_env :: http_env where
  "error_env = \<lparr>he_millis = 1234, he_connect_ok = True, he_response_ready = True,
     he_status_line = ''HTTP/1.1 500 INTERNAL SERVER ERROR'' @ [CHR 0x0D],
     he_header_lines = [''X-Session-Id: abc'' @ [CHR 0x0D], [CHR 0x0D]],
     he_fs_open_ok = True,
     he_body = []\<rparr>"

definition complete_env :: http_env where
  "complete_env = \<lparr>he_millis = 1234, he_connect_ok = True, he_response_ready = True,
     he_status_line = status_200_line,
     he_header_lines = [''X-Session-Id: abc'' @ [CHR 0x0D],
                        ''Content-Length: 5000'' @ [CHR 0x0D], [CHR 0x0D]],
     he_fs_open_ok = True,
     he_body = [\<lparr>bp_avail = 4096, bp_fs_room = 4096\<rparr>, \<lparr>bp_avail = 904, bp_fs_room = 904\<rparr>]\<rparr>"

text \<open>
  Capture: the button held while the driver delivers 2000 bytes, and a tap during which
  it delivers 600.
\<close>

definition held_passes :: "rec_pass list" where
  "held_passes = [\<lparr>rp_millis = 100, rp_i2s_ok = True, rp_i2s_data = replicate 2000 0\<rparr>]"

definition tap_passes :: "rec_pass list" where
  "tap_passes = [\<lparr>rp_millis = 10, rp_i2s_ok = True, rp_i2s_data = replicate 600 0\<rparr>]"

text \<open>
  Capture of one read of four bytes: the samples \<open>-32768\<close> and \<open>10000\<close>.
\<close>

definition gain_passes :: "rec_pass list" where
  "gain_passes = [\<lparr>rp_millis = 0, rp_i2s_ok = True, rp_i2s_data = [0, 128, 16, 39]\<rparr>]"

text \<open>An interaction with no button edge while it runs, and the device at rest.\<close>

definition interaction :: "rec_pass list \<Rightarrow> http_env \<Rightarrow> interaction_env" where
  "interaction passes h = \<lparr>ie_record_start = 0, ie_record = passes, ie_http = h,
     ie_play_ok = True, ie_isr = []\<rparr>"

definition idle_sys :: sys where
  "idle_sys = \<lparr>currentState = STATE_IDLE, sessionId = ''old'', nvs_session_id = ''old'',
     buttonPressed = False, buttonPressStart = 0, lastDebounceTime = 0,
     recordBuffer = (\<lambda>a. 0), recordedBytes = 0, led_log = [], http_log = []\<rparr>"

text \<open>
  The button: an interaction that finds the button already released, and one in which
  the button is held while 3200 bytes are captured and the contact bounces 15 ms after
  the press was taken. Three passes of \<open>loop\<close>: one during which the button is pressed at
  1000 ms, one that takes the press at 1005 ms, and one at 9000 ms, after the interaction.
\<close>

definition quiet_interaction :: "u32 \<Rightarrow> interaction_env" where
  "quiet_interaction t = \<lparr>ie_record_start = t, ie_record = [], ie_http = closed_env,
     ie_play_ok = True, ie_isr = []\<rparr>"

definition bounce_interaction :: interaction_env where
  "bounce_interaction = \<lparr>ie_record_start = 1005,
     ie_record = [\<lparr>rp_millis = 1005, rp_i2s_ok = True, rp_i2s_data = replicate 3200 0\<rparr>],
     ie_http = complete_env, ie_play_ok = True, ie_isr = [1020]\<rparr>"

definition edge_pass :: loop_env where
  "edge_pass = \<lparr>le_wifi_up = True, le_wifi_isr = [], le_wifi_up_after = True,
     le_millis_check = 990, le_millis_set = 990, le_interaction = quiet_interaction 990,
     le_tail_isr = [1000]\<rparr>"

definition press_pass :: loop_env where
  "press_pass = \<lparr>le_wifi_up = True, le_wifi_isr = [], le_wifi_up_after = True,
     le_millis_check = 1005, le_millis_set = 1005, le_interaction = bounce_interaction,
     le_tail_isr = []\<rparr>"

definition stale_pass :: loop_env where
  "stale_pass = \<lparr>le_wifi_up = True, le_wifi_isr = [], le_wifi_up_after = True,
     le_millis_check = 9000, le_millis_set = 9000, le_interaction = quiet_interaction 9000,
     le_tail_isr = []\<rparr>"

text \<open>
  The same press with both edges, at 1000 ms and 1020 ms, before the next button check,
  which takes the press at 1025 ms.
\<close>

definition twin_edge_pass :: loop_env where
  "twin_edge_pass = \<lparr>le_wifi_up = True, le_wifi_isr = [], le_wifi_up_after = True,
     le_millis_check = 990, le_millis_set = 990, le_interaction = quiet_interaction 990,
     le_tail_isr = [1000, 1020]\<rparr>"

definition take_pass :: loop_env where
  "take_pass = \<lparr>le_wifi_up = True, le_wifi_isr = [], le_wifi_up_after = True,
     le_millis_check = 1025, le_millis_set = 1025,
     le_interaction = bounce_interaction\<lparr>ie_record_start := 1025, ie_isr := []\<rparr>,
     le_tail_isr = []\<rparr>"

definition edges_of :: "loop_env \<Rightarrow> u32 list" where
  "edges_of env = le_wifi_isr env @ ie_isr (le_interaction env) @ le_tail_isr env"


section \<open>Properties\<close>

subsection \<open>Word lemmas\<close>

lemma and_255_take_bit: "(w :: 'a::len word) AND 0xFF = take_bit 8 w"
proof -
  have "(0xFF :: 'a word) = mask 8"
    by (simp add: mask_eq_exp_minus_1)
  then show ?thesis
    by (simp add: take_bit_eq_mask)
qed

lemma unat_low_byte: "unat (ucast ((w :: u32) AND 0xFF) :: u8) = unat w mod 256"
proof -
  have "unat (ucast (w AND 0xFF) :: u8) = take_bit 8 (unat (take_bit 8 w))"
    by (simp only: and_255_take_bit unsigned_ucast_eq) simp
  also have "\<dots> = take_bit 8 (take_bit 8 (unat w))"
    by (simp only: unsigned_take_bit_eq)
  also have "\<dots> = unat w mod 256"
    by (simp add: take_bit_eq_mod)
  finally show ?thesis .
qed

lemma unat_shifted_byte:
  "unat (ucast (drop_bit k (w :: u32) AND 0xFF) :: u8) = unat w div 2 ^ k mod 256"
proof -
  have "unat (drop_bit k w) = drop_bit k (unat w)"
    by (rule unat_drop_bit_eq)
  also have "\<dots> = unat w div 2 ^ k"
    by (rule drop_bit_eq_div)
  finally show ?thesis
    by (simp only: unat_low_byte)
qed

lemma byte_of_nat:
  assumes "n < 2 ^ 32"
  shows "(ucast (drop_bit k (of_nat n :: u32) AND 0xFF) :: u8) = of_nat (n div 2 ^ k mod 256)"
proof -
  have "unat (of_nat n :: u32) = n"
    using assms by (simp add: unat_of_nat)
  then have "unat (ucast (drop_bit k (of_nat n :: u32) AND 0xFF) :: u8) = n div 2 ^ k mod 256"
    by (simp only: unat_shifted_byte)
  moreover have "unat (of_nat (n div 2 ^ k mod 256) :: u8) = n div 2 ^ k mod 256"
    by (simp add: unat_of_nat)
  ultimately show ?thesis
    by (simp only: word_unat_eq_iff)
qed

lemma low_byte_of_nat:
  assumes "n < 2 ^ 32"
  shows "(ucast ((of_nat n :: u32) AND 0xFF) :: u8) = of_nat (n mod 256)"
  using byte_of_nat [OF assms, of 0] by simp

lemma product_exact: "sint ((scast (x :: u16) :: u32) * MIC_GAIN_FACTOR) = sint x * 4"
proof -
  have r: "- 32768 \<le> sint x" "sint x < 32768"
    using sint_range_size [of x] by (simp_all add: word_size)
  have "sint (scast x :: u32) = sint x"
    by (simp add: sint_up_scast is_up)
  then have "sint ((scast x :: u32) * MIC_GAIN_FACTOR) = signed_take_bit 31 (sint x * 4)"
    by (simp add: sint_word_mult MIC_GAIN_FACTOR_def)
  also have "\<dots> = sint x * 4"
    using r by (simp add: signed_take_bit_int_eq_self_iff)
  finally show ?thesis .
qed

lemma sint_narrow:
  assumes "- 32768 \<le> sint (w :: u32)" "sint w \<le> 32767"
  shows "sint (ucast w :: u16) = sint w"
proof -
  have "sint (ucast w :: u16) = signed_take_bit 15 (uint w)"
    by (simp add: signed_ucast_eq)
  also have "\<dots> = signed_take_bit 15 (signed_take_bit 31 (uint w))"
    by simp
  also have "\<dots> = signed_take_bit 15 (sint w)"
    by (simp add: sint_uint)
  also have "\<dots> = sint w"
    using assms by (simp add: signed_take_bit_int_eq_self_iff)
  finally show ?thesis .
qed

lemma gain_sample_sint: "sint (gain_sample x) = max (- 32768) (min 32767 (sint x * 4))"
proof -
  let ?p = "(scast x :: u32) * MIC_GAIN_FACTOR"
  have p: "sint ?p = sint x * 4"
    by (rule product_exact)
  have hi16: "sint (ucast (32767 :: u32) :: u16) = 32767"
    by simp
  have lo16: "sint (ucast (- 32768 :: u32) :: u16) = - 32768"
    by simp
  consider "32767 < sint x * 4" | "sint x * 4 < - 32768"
    | "- 32768 \<le> sint x * 4" "sint x * 4 \<le> 32767"
    by linarith
  then show ?thesis
  proof cases
    case 1
    then show ?thesis
      by (simp add: gain_sample_def Let_def word_sless_alt p hi16
            del: sint_sbintrunc sint_sbintrunc_neg)
  next
    case 2
    then show ?thesis
      by (simp add: gain_sample_def Let_def word_sless_alt p lo16
            del: sint_sbintrunc sint_sbintrunc_neg)
  next
    case 3
    then have "sint (ucast ?p :: u16) = sint x * 4"
      using sint_narrow [of ?p] p by simp
    with 3 show ?thesis
      by (simp add: gain_sample_def Let_def word_sless_alt p)
  qed
qed

subsection \<open>The byte store\<close>

lemma load16_store16_same: "load16 (store16 buf a v) a = v"
  by (rule bit_word_eqI) (auto simp add: load16_def store16_def bit_simps)

lemma load16_store16_other:
  "b + 1 < a \<or> a + 1 < b \<Longrightarrow> load16 (store16 buf a v) b = load16 buf b"
  by (auto simp add: load16_def store16_def)

lemma write_bytes_frame:
  "a < off \<or> off + length data \<le> a \<Longrightarrow> write_bytes buf off data a = buf a"
  by (auto simp add: write_bytes_def)

lemma gainLoop_frame:
  "a < newSamples + 2 * i \<or> newSamples + 2 * numSamples \<le> a \<Longrightarrow>
   gainLoop newSamples numSamples i buf a = buf a"
proof (induction newSamples numSamples i buf rule: gainLoop.induct)
  case (1 newSamples numSamples i buf)
  show ?case
  proof (cases "i < numSamples")
    case True
    with "1.prems" have "a < newSamples + 2 * (i + 1) \<or> newSamples + 2 * numSamples \<le> a"
      by auto
    with True "1.IH" have "gainLoop newSamples numSamples i buf a =
        store16 buf (newSamples + 2 * i) (gain_sample (load16 buf (newSamples + 2 * i))) a"
      by (subst gainLoop.simps) simp
    also have "\<dots> = buf a"
      using "1.prems" True by (auto simp add: store16_def)
    finally show ?thesis .
  next
    case False
    then show ?thesis
      by (subst gainLoop.simps) simp
  qed
qed

lemma gainLoop_sample:
  "i \<le> j \<Longrightarrow> j < numSamples \<Longrightarrow>
   load16 (gainLoop newSamples numSamples i buf) (newSamples + 2 * j) =
     gain_sample (load16 buf (newSamples + 2 * j))"
proof (induction newSamples numSamples i buf rule: gainLoop.induct)
  case (1 newSamples numSamples i buf)
  let ?buf' = "store16 buf (newSamples + 2 * i) (gain_sample (load16 buf (newSamples + 2 * i)))"
  from "1.prems" have lt: "i < numSamples"
    by simp
  then have unf:
    "gainLoop newSamples numSamples i buf = gainLoop newSamples numSamples (i + 1) ?buf'"
    by (subst gainLoop.simps) simp
  show ?case
  proof (cases "i = j")
    case True
    have "load16 (gainLoop newSamples numSamples (i + 1) ?buf') (newSamples + 2 * j) =
          load16 ?buf' (newSamples + 2 * j)"
      using True by (simp add: load16_def gainLoop_frame)
    also have "\<dots> = gain_sample (load16 buf (newSamples + 2 * j))"
      using True by (simp add: load16_store16_same)
    finally show ?thesis
      by (simp only: unf)
  next
    case False
    with "1.prems" have "i + 1 \<le> j"
      by simp
    with "1.IH" [OF lt] "1.prems" have
      "load16 (gainLoop newSamples numSamples (i + 1) ?buf') (newSamples + 2 * j) =
       gain_sample (load16 ?buf' (newSamples + 2 * j))"
      by simp
    also have "load16 ?buf' (newSamples + 2 * j) = load16 buf (newSamples + 2 * j)"
      using \<open>i + 1 \<le> j\<close> by (intro load16_store16_other) simp
    finally show ?thesis
      by (simp only: unf)
  qed
qed

subsection \<open>The capture loop\<close>

lemma recordLoop_bound:
  "t \<le> maxSize \<Longrightarrow> snd (recordLoop base maxSize rs ps (buf, t)) \<le> maxSize"
proof (induction ps arbitrary: buf t)
  case Nil
  then show ?case
    by simp
next
  case (Cons p ps)
  then show ?case
    by (auto simp add: Let_def i2s_read_def split: prod.splits if_splits)
qed

text \<open>The capture loop writes nowhere outside the \<open>maxSize\<close> bytes it was given.\<close>

lemma recordLoop_frame:
  "t \<le> maxSize \<Longrightarrow> a < base \<or> base + maxSize \<le> a \<Longrightarrow>
   fst (recordLoop base maxSize rs ps (buf, t)) a = buf a"
proof (induction ps arbitrary: buf t)
  case Nil
  then show ?case
    by simp
next
  case (Cons p ps)
  show ?case
  proof (cases "rp_i2s_ok p")
    case False
    with Cons show ?thesis
      by (auto simp add: Let_def i2s_read_def)
  next
    case True
    let ?n = "min (min 4096 (maxSize - t)) (length (rp_i2s_data p))"
    let ?w = "write_bytes buf (base + t) (take (min 4096 (maxSize - t)) (rp_i2s_data p))"
    have w: "?w a = buf a"
      using Cons.prems by (intro write_bytes_frame) auto
    have g: "gainLoop (base + t) (?n div 2) 0 ?w a = buf a"
      using Cons.prems w by (subst gainLoop_frame) auto
    have le: "t + ?n \<le> maxSize"
      using Cons.prems by auto
    from Cons.IH [OF le Cons.prems(2)] Cons.IH [OF Cons.prems] w g True show ?thesis
      by (auto simp add: Let_def i2s_read_def min_def)
  qed
qed

text \<open>
  What a pass of the capture loop has stored is left alone by the passes after it, and
  each sample a pass reads is stored with the gain applied.
\<close>

lemma recordLoop_Cons:
  "recordLoop base maxSize rs (p # ps) s =
     (case recordPass base maxSize rs p s of
        None \<Rightarrow> s
      | Some s' \<Rightarrow> recordLoop base maxSize rs ps s')"
  by (cases s) (auto simp add: recordPass_def Let_def split: prod.splits)

lemma recordPass_offset:
  "recordPass base maxSize rs p (buf, t) = Some (buf', t') \<Longrightarrow> t \<le> maxSize \<Longrightarrow>
   t \<le> t' \<and> t' \<le> maxSize"
  by (auto simp add: recordPass_def Let_def i2s_read_def split: if_splits)

lemma recordLoop_below:
  "a < base + t \<Longrightarrow> fst (recordLoop base maxSize rs ps (buf, t)) a = buf a"
proof (induction ps arbitrary: buf t)
  case Nil
  then show ?case by simp
next
  case (Cons p ps)
  show ?case
  proof (cases "rp_i2s_ok p")
    case False
    with Cons show ?thesis
      by (auto simp add: Let_def i2s_read_def)
  next
    case True
    let ?n = "min (min 4096 (maxSize - t)) (length (rp_i2s_data p))"
    let ?w = "write_bytes buf (base + t) (take (min 4096 (maxSize - t)) (rp_i2s_data p))"
    have w: "?w a = buf a"
      using Cons.prems by (intro write_bytes_frame) simp
    have g: "gainLoop (base + t) (?n div 2) 0 ?w a = buf a"
      using Cons.prems w by (subst gainLoop_frame) auto
    have lt: "a < base + (t + ?n)"
      using Cons.prems by simp
    from Cons.IH [OF lt] Cons.IH [OF Cons.prems] w g True show ?thesis
      by (auto simp add: Let_def i2s_read_def min_def)
  qed
qed

lemma load16_write_bytes:
  "2 * j + 1 < length d \<Longrightarrow> load16 (write_bytes buf off d) (off + 2 * j) = sample_le d j"
  by (simp add: load16_def write_bytes_def sample_le_def)

lemma recordPass_sample:
  assumes "recordPass base maxSize rs p (buf, t) = Some (buf', t')"
    and "j < (t' - t) div 2"
  shows "load16 buf' (base + t + 2 * j) = gain_sample (sample_le (rp_i2s_data p) j)"
proof -
  let ?toRead = "min 4096 (maxSize - t)"
  let ?d = "take ?toRead (rp_i2s_data p)"
  let ?n = "min ?toRead (length (rp_i2s_data p))"
  from assms have ok: "rp_i2s_ok p" and n: "t' = t + ?n"
    and b: "buf' = gainLoop (base + t) (?n div 2) 0 (write_bytes buf (base + t) ?d)"
    by (auto simp add: recordPass_def Let_def i2s_read_def split: if_splits)
  from assms(2) n have j: "j < ?n div 2"
    by simp
  then have "2 * j + 1 < ?n"
    by arith
  then have r: "2 * j + 1 < length ?d"
    by simp
  have "load16 buf' (base + t + 2 * j)
          = gain_sample (load16 (write_bytes buf (base + t) ?d) (base + t + 2 * j))"
    unfolding b using j by (intro gainLoop_sample) simp_all
  also have "load16 (write_bytes buf (base + t) ?d) (base + t + 2 * j) = sample_le ?d j"
    using r by (rule load16_write_bytes)
  also have "sample_le ?d j = sample_le (rp_i2s_data p) j"
    using r by (simp add: sample_le_def)
  finally show ?thesis .
qed

lemma recordLoop_sample:
  "k < length ps \<Longrightarrow> t \<le> maxSize \<Longrightarrow>
   j < (snd (recordLoop base maxSize rs (take (Suc k) ps) (buf, t))
          - snd (recordLoop base maxSize rs (take k ps) (buf, t))) div 2 \<Longrightarrow>
   load16 (fst (recordLoop base maxSize rs ps (buf, t)))
      (base + snd (recordLoop base maxSize rs (take k ps) (buf, t)) + 2 * j)
     = gain_sample (sample_le (rp_i2s_data (ps ! k)) j)"
proof (induction ps arbitrary: k buf t)
  case Nil
  then show ?case by simp
next
  case (Cons p ps)
  show ?case
  proof (cases "recordPass base maxSize rs p (buf, t)")
    case None
    then have "recordLoop base maxSize rs (p # xs) (buf, t) = (buf, t)" for xs
      by (simp add: recordLoop_Cons)
    with Cons.prems(3) show ?thesis
      by (cases k) simp_all
  next
    case (Some s')
    obtain buf' t' where s': "s' = (buf', t')"
      by (cases s')
    from Some s' Cons.prems(2) have t': "t \<le> t'" "t' \<le> maxSize"
      using recordPass_offset by blast+
    have step: "recordLoop base maxSize rs (p # xs) (buf, t)
                  = recordLoop base maxSize rs xs (buf', t')" for xs
      by (simp add: recordLoop_Cons Some s')
    show ?thesis
    proof (cases k)
      case 0
      with Cons.prems(3) have j: "j < (t' - t) div 2"
        by (simp add: step del: recordLoop.simps(2))
      then have "2 * j + 1 < t' - t"
        by simp
      then have lo: "base + t + 2 * j < base + t'" "base + t + 2 * j + 1 < base + t'"
        by simp_all
      have "load16 (fst (recordLoop base maxSize rs ps (buf', t'))) (base + t + 2 * j)
              = load16 buf' (base + t + 2 * j)"
        using lo by (simp add: load16_def recordLoop_below)
      also have "\<dots> = gain_sample (sample_le (rp_i2s_data p) j)"
        using Some s' j by (intro recordPass_sample) simp_all
      finally show ?thesis
        using 0 by (simp add: step del: recordLoop.simps(2))
    next
      case (Suc k')
      with Cons.prems have k': "k' < length ps"
        and j: "j < (snd (recordLoop base maxSize rs (take (Suc k') ps) (buf', t'))
                  - snd (recordLoop base maxSize rs (take k' ps) (buf', t'))) div 2"
        by (simp_all add: step del: recordLoop.simps(2))
      from Cons.IH [OF k' t'(2) j] Suc show ?thesis
        by (simp add: step del: recordLoop.simps(2))
    qed
  qed
qed

subsection \<open>The WAV header\<close>

lemma upt_44:
  "[0..<44] = [0, 1, 2, 3, 4, 5, 6, 7, 8, 9, 10, 11, 12, 13, 14, 15, 16, 17, 18, 19, 20, 21,
     22, 23, 24, 25, 26, 27, 28, 29, 30, 31, 32, 33, 34, 35, 36, 37, 38, 39, 40, 41, 42, 43]"
  by (simp add: upt_rec)

lemma fixed_fields:
  "le_u32 16 = [16, 0, 0, 0]" "le_u16 1 = [1, 0]" "le_u32 16000 = [128, 62, 0, 0]"
  "le_u32 32000 = [0, 125, 0, 0]" "le_u16 2 = [2, 0]" "le_u16 16 = [16, 0]"
  by (simp_all add: le_u32_def le_u16_def)

lemma le_u32_word:
  assumes "n < 2 ^ 32"
  shows "le_u32 n =
    [ucast ((of_nat n :: u32) AND 0xFF), ucast (drop_bit 8 (of_nat n :: u32) AND 0xFF),
     ucast (drop_bit 16 (of_nat n :: u32) AND 0xFF),
     ucast (drop_bit 24 (of_nat n :: u32) AND 0xFF)]"
  by (simp only: byte_of_nat [OF assms] low_byte_of_nat [OF assms] le_u32_def) simp

text \<open>
  C2. For every data size \<open>n\<close> up to \<open>CAP - 44 = RECORD_BUFFER_SIZE\<close>, the 44 bytes that
  \<open>createWavHeader\<close> leaves at offsets 0 to 43 are \<open>RIFF\<close>, \<open>n + 36\<close> as a little-endian
  32-bit number, \<open>WAVE\<close>, the \<open>fmt\<close> chunk of size 16 for PCM (format 1), one channel,
  16000 Hz, byte rate 32000, block alignment 2 and 16 bits per sample, then \<open>data\<close> and
  \<open>n\<close> as a little-endian 32-bit number; the function returns 44.
\<close>

theorem createWavHeader_fields:
  assumes "n \<le> unat RECORD_BUFFER_SIZE"
  shows "map (fst (createWavHeader buffer (of_nat n))) [0..<44] =
           bytes_of ''RIFF'' @ le_u32 (n + 36) @ bytes_of ''WAVE'' @
           bytes_of ''fmt '' @ le_u32 16 @ le_u16 1 @ le_u16 1 @ le_u32 16000 @
           le_u32 32000 @ le_u16 2 @ le_u16 16 @
           bytes_of ''data'' @ le_u32 n
         \<and> snd (createWavHeader buffer (of_nat n)) = 44"
proof -
  have "n \<le> 960000"
    using assms by (simp add: RECORD_BUFFER_SIZE_def SAMPLE_RATE_def RECORD_TIME_MAX_SEC_def)
  then have b: "n < 2 ^ 32" "n + 36 < 2 ^ 32"
    by simp_all
  have fs: "(of_nat n :: u32) + 36 = of_nat (n + 36)"
    by simp
  show ?thesis
    unfolding le_u32_word [OF b(1)] le_u32_word [OF b(2)] fixed_fields upt_44
      createWavHeader_def Let_def fs
    by (simp add: bytes_of_def SAMPLE_RATE_def CHANNELS_def BITS_PER_SAMPLE_def)
qed

theorem createWavHeader_fields_witness:
  "(1000 :: nat) \<le> unat RECORD_BUFFER_SIZE \<and>
   map (fst (createWavHeader (\<lambda>a. 0) 1000)) [0..<44] =
     [82, 73, 70, 70, 12, 4, 0, 0, 87, 65, 86, 69, 102, 109, 116, 32, 16, 0, 0, 0, 1, 0, 1, 0,
      128, 62, 0, 0, 0, 125, 0, 0, 2, 0, 16, 0, 100, 97, 116, 97, 232, 3, 0, 0]"
proof -
  have h: "(1000 :: nat) \<le> unat RECORD_BUFFER_SIZE"
    by (simp add: RECORD_BUFFER_SIZE_def SAMPLE_RATE_def RECORD_TIME_MAX_SEC_def)
  show ?thesis
    using h createWavHeader_fields [OF h, of "\<lambda>a. 0"]
    by (simp add: bytes_of_def le_u32_def le_u16_def)
qed

text \<open>
  C10. For every data size, \<open>createWavHeader\<close> leaves every byte at offset 44 and beyond
  as it was: it writes offsets 0 to 43 only.
\<close>

theorem createWavHeader_frame:
  "44 \<le> a \<Longrightarrow> fst (createWavHeader buffer dataSize) a = buffer a"
  by (simp add: createWavHeader_def Let_def)

theorem createWavHeader_frame_witness:
  "(44 :: nat) \<le> 44 \<and> fst (createWavHeader (\<lambda>a. 7) 1000) 44 = 7"
  using createWavHeader_frame [of 44 "\<lambda>a. 7" 1000] by simp

subsection \<open>Capture\<close>

text \<open>
  C4. Called as \<open>processVoiceInteraction\<close> calls it, with \<open>maxSize = RECORD_BUFFER_SIZE\<close>
  (that is \<open>CAP - 44 = 960000\<close>) on the region at offset 44, \<open>recordAudio\<close> returns a byte
  count of at most 960000 (a \<open>size_t\<close>, so never negative), and so it does on every
  prefix of the passes: the running offset \<open>totalBytesRead\<close> after any number of passes
  of the loop is at most 960000.
\<close>

theorem recordAudio_bound:
  "snd (recordAudio buf 44 (unat RECORD_BUFFER_SIZE) recordStart passes) \<le> 960000 \<and>
   (\<forall>k. snd (recordAudio buf 44 (unat RECORD_BUFFER_SIZE) recordStart (take k passes))
          \<le> 960000)"
proof -
  have m: "unat RECORD_BUFFER_SIZE = 960000"
    by (simp add: RECORD_BUFFER_SIZE_def SAMPLE_RATE_def RECORD_TIME_MAX_SEC_def)
  have "snd (recordLoop 44 960000 recordStart ps (buf, 0)) \<le> 960000" for ps
    by (rule recordLoop_bound) simp
  then show ?thesis
    by (simp add: recordAudio_def m)
qed

text \<open>
  C5. For every signed 16-bit sample \<open>x\<close>, the 32-bit product \<open>x * MIC_GAIN_FACTOR\<close> is
  the exact integer product (no wrap-around) and the value narrowed back to 16 bits is
  \<open>clamp (x * MIC_GAIN_FACTOR) (-32768) 32767\<close>. In every run of \<open>recordAudio\<close>, for every
  pass \<open>k\<close> of the capture loop that reads bytes and every sample \<open>j\<close> among the
  \<open>bytesRead / 2\<close> samples of that read, the sample found at its place in the buffer when
  \<open>recordAudio\<close> returns is the clamped product of the sample the driver delivered.
\<close>

theorem gain_saturates:
  "sint ((scast (x :: u16) :: u32) * MIC_GAIN_FACTOR) = sint x * 4 \<and>
   sint (gain_sample x) = max (- 32768) (min 32767 (sint x * 4)) \<and>
   (\<forall>k j. k < length passes \<and>
           j < (snd (recordAudio buf base maxSize recordStart (take (Suc k) passes))
                 - snd (recordAudio buf base maxSize recordStart (take k passes))) div 2 \<longrightarrow>
      sint (load16 (fst (recordAudio buf base maxSize recordStart passes))
              (base + snd (recordAudio buf base maxSize recordStart (take k passes)) + 2 * j))
        = max (- 32768) (min 32767 (sint (sample_le (rp_i2s_data (passes ! k)) j) * 4)))"
proof -
  have "load16 (fst (recordAudio buf base maxSize recordStart passes))
              (base + snd (recordAudio buf base maxSize recordStart (take k passes)) + 2 * j)
          = gain_sample (sample_le (rp_i2s_data (passes ! k)) j)"
    if "k < length passes"
      and "j < (snd (recordAudio buf base maxSize recordStart (take (Suc k) passes))
                 - snd (recordAudio buf base maxSize recordStart (take k passes))) div 2"
    for k j
    using that unfolding recordAudio_def by (intro recordLoop_sample) simp_all
  then show ?thesis
    by (simp add: product_exact gain_sample_sint)
qed

theorem gain_saturates_witness:
  "(0 :: nat) < length gain_passes \<and>
   (1 :: nat) < (snd (recordAudio (\<lambda>a. 0) 44 (unat RECORD_BUFFER_SIZE) 0 (take (Suc 0) gain_passes))
                  - snd (recordAudio (\<lambda>a. 0) 44 (unat RECORD_BUFFER_SIZE) 0 (take 0 gain_passes)))
                 div 2 \<and>
   sint (sample_le (rp_i2s_data (gain_passes ! 0)) 1) = 10000 \<and>
   sint (load16 (fst (recordAudio (\<lambda>a. 0) 44 (unat RECORD_BUFFER_SIZE) 0 gain_passes))
           (44 + snd (recordAudio (\<lambda>a. 0) 44 (unat RECORD_BUFFER_SIZE) 0 (take 0 gain_passes))
              + 2 * 1)) = 32767"
proof -
  let ?run = "recordAudio (\<lambda>a. 0) 44 (unat RECORD_BUFFER_SIZE) 0"
  have m: "unat RECORD_BUFFER_SIZE = 960000"
    by (simp add: RECORD_BUFFER_SIZE_def SAMPLE_RATE_def RECORD_TIME_MAX_SEC_def)
  have t0: "snd (?run (take 0 gain_passes)) = 0"
    by (simp add: recordAudio_def)
  have t1: "snd (?run (take (Suc 0) gain_passes)) = 4"
    by (simp add: recordAudio_def gain_passes_def i2s_read_def Let_def m
          RECORD_TIME_MAX_SEC_def)
  have x: "sint (sample_le (rp_i2s_data (gain_passes ! 0)) 1) = 10000"
    by (simp add: gain_passes_def sample_le_def)
  have h1: "(0 :: nat) < length gain_passes"
    by (simp add: gain_passes_def)
  have h2: "(1 :: nat) < (snd (?run (take (Suc 0) gain_passes))
                           - snd (?run (take 0 gain_passes))) div 2"
    unfolding t0 t1 by simp
  note h = conjI [OF h1 h2]
  have "\<forall>k j. k < length gain_passes \<and>
           j < (snd (?run (take (Suc k) gain_passes)) - snd (?run (take k gain_passes))) div 2 \<longrightarrow>
      sint (load16 (fst (?run gain_passes)) (44 + snd (?run (take k gain_passes)) + 2 * j))
        = max (- 32768) (min 32767 (sint (sample_le (rp_i2s_data (gain_passes ! k)) j) * 4))"
    using gain_saturates [of 0 gain_passes "\<lambda>a. 0" 44 "unat RECORD_BUFFER_SIZE" 0]
    by (elim conjE)
  then have "sint (load16 (fst (?run gain_passes)) (44 + snd (?run (take 0 gain_passes)) + 2 * 1))
        = max (- 32768) (min 32767 (sint (sample_le (rp_i2s_data (gain_passes ! 0)) 1) * 4))"
    using h by blast
  then have "sint (load16 (fst (?run gain_passes)) (44 + snd (?run (take 0 gain_passes)) + 2 * 1))
        = 32767"
    by (simp only: x)
  with h x show ?thesis
    by blast
qed

subsection \<open>The request\<close>

lemma sendWavChunks_all:
  "sent \<le> wavSize \<Longrightarrow>
   sendWavChunks wavData wavSize sent out = out @ map wavData [sent..<wavSize]"
proof (induction wavData wavSize sent out rule: sendWavChunks.induct)
  case (1 wavData wavSize sent out)
  show ?case
  proof (cases "sent < wavSize")
    case True
    let ?k = "min 4096 (wavSize - sent)"
    have le: "sent + ?k \<le> wavSize" using True by simp
    have "[sent..<wavSize] = [sent..<sent + ?k] @ [sent + ?k..<wavSize]"
      using le by (metis le_add1 upt_add_eq_append le_Suc_ex)
    with "1.IH" [OF True le] True show ?thesis
      by (subst sendWavChunks.simps) simp
  next
    case False
    with "1.prems" show ?thesis
      by (subst sendWavChunks.simps) simp
  qed
qed

lemma parts_code: "bodyStart b = part_A b" "bodyMid b sid = part_B b sid" "bodyEnd b = part_C b"
  by (simp_all add: bodyStart_def bodyMid_def bodyEnd_def part_A_def part_B_def part_C_def
        form_part_def Let_def)

lemma bytes_of_append: "bytes_of (xs @ ys) = bytes_of xs @ bytes_of ys"
  by (simp add: bytes_of_def)

lemma bytes_of_Cons: "bytes_of (c # cs) = of_char c # bytes_of cs"
  by (simp add: bytes_of_def)

lemma sendRequest_shape:
  assumes "length (part_A (boundary_of ms)) + wavSize + length (part_B (boundary_of ms) sid)
             + length (part_C (boundary_of ms)) < 2 ^ 32"
  shows "sendRequest sid wavData wavSize ms =
     bytes_of (''POST /voice/process HTTP/1.1'' @ CRLF
               @ ''Host: 192.168.50.5'' @ CRLF
               @ ''Content-Type: multipart/form-data; boundary='' @ boundary_of ms @ CRLF
               @ ''Content-Length: ''
               @ String_of_nat (length (part_A (boundary_of ms)) + wavSize
                                 + length (part_B (boundary_of ms) sid)
                                 + length (part_C (boundary_of ms))) @ CRLF
               @ ''Connection: close'' @ CRLF
               @ CRLF)
      @ bytes_of (part_A (boundary_of ms)) @ map wavData [0..<wavSize]
      @ bytes_of (part_B (boundary_of ms) sid) @ bytes_of (part_C (boundary_of ms))"
proof -
  have m: "(length (part_A (boundary_of ms)) + wavSize + length (part_B (boundary_of ms) sid)
             + length (part_C (boundary_of ms))) mod 2 ^ 32
           = length (part_A (boundary_of ms)) + wavSize + length (part_B (boundary_of ms) sid)
             + length (part_C (boundary_of ms))"
    using assms by (rule mod_less)
  show ?thesis
    unfolding sendRequest_def Let_def parts_code m
    by (simp add: sendWavChunks_all bytes_of_append bytes_of_Cons VOICE_ENDPOINT_def
          SERVER_HOST_def)
qed

lemma hr_sent_sendVoiceRequest:
  "he_connect_ok env \<Longrightarrow>
   hr_sent (sendVoiceRequest sid wavData wavSize rs env) =
     sendRequest sid wavData wavSize (he_millis env)"
  by (simp add: sendVoiceRequest_def Let_def split: prod.splits)

text \<open>
  C3. Once the connection is accepted, the bytes \<open>sendVoiceRequest\<close> hands to the socket
  are the request head, whose \<open>Content-Length\<close> is the decimal numeral of
  \<open>|A| + wavSize + |B| + |C|\<close>, followed by exactly part A, the \<open>wavSize\<close> bytes of the WAV
  buffer, part B and part C, for every payload size and every cached session identifier.
  The sum is a \<open>size_t\<close>; the four objects lie in one 32-bit address space at the same
  time, so it is below \<open>2 ^ 32\<close>.
\<close>

theorem multipart_shape:
  assumes "he_connect_ok env"
    and "length (part_A (boundary_of (he_millis env))) + wavSize
           + length (part_B (boundary_of (he_millis env)) sid)
           + length (part_C (boundary_of (he_millis env))) < 2 ^ 32"
  shows "hr_sent (sendVoiceRequest sid wavData wavSize rs env) =
     bytes_of (''POST /voice/process HTTP/1.1'' @ CRLF
               @ ''Host: 192.168.50.5'' @ CRLF
               @ ''Content-Type: multipart/form-data; boundary=''
               @ boundary_of (he_millis env) @ CRLF
               @ ''Content-Length: ''
               @ String_of_nat (length (part_A (boundary_of (he_millis env))) + wavSize
                                 + length (part_B (boundary_of (he_millis env)) sid)
                                 + length (part_C (boundary_of (he_millis env)))) @ CRLF
               @ ''Connection: close'' @ CRLF
               @ CRLF)
      @ bytes_of (part_A (boundary_of (he_millis env))) @ map wavData [0..<wavSize]
      @ bytes_of (part_B (boundary_of (he_millis env)) sid)
      @ bytes_of (part_C (boundary_of (he_millis env)))"
  by (simp only: hr_sent_sendVoiceRequest [OF assms(1)] sendRequest_shape [OF assms(2)])

lemma String_of_nat_1234: "String_of_nat 1234 = ''1234''"
  by code_simp

lemma String_of_nat_320: "String_of_nat 320 = ''320''"
  by code_simp

theorem multipart_shape_witness:
  "he_connect_ok shape_env \<and>
   length (part_A (boundary_of (he_millis shape_env))) + 3
     + length (part_B (boundary_of (he_millis shape_env)) ''abc'')
     + length (part_C (boundary_of (he_millis shape_env))) < (2 :: nat) ^ 32 \<and>
   hr_sent (sendVoiceRequest ''abc'' of_nat 3 [] shape_env) =
     bytes_of (''POST /voice/process HTTP/1.1'' @ CRLF
               @ ''Host: 192.168.50.5'' @ CRLF
               @ ''Content-Type: multipart/form-data; boundary=----ESP32Boundary1234'' @ CRLF
               @ ''Content-Length: 320'' @ CRLF
               @ ''Connection: close'' @ CRLF
               @ CRLF)
      @ bytes_of (part_A ''----ESP32Boundary1234'') @ [0, 1, 2]
      @ bytes_of (part_B ''----ESP32Boundary1234'' ''abc'')
      @ bytes_of (part_C ''----ESP32Boundary1234'')"
proof -
  have b: "boundary_of (he_millis shape_env) = ''----ESP32Boundary1234''"
    by (simp add: shape_env_def boundary_of_def String_of_nat_1234)
  have c: "he_connect_ok shape_env"
    by (simp add: shape_env_def)
  have l: "length (part_A ''----ESP32Boundary1234'') + 3
     + length (part_B ''----ESP32Boundary1234'' ''abc'')
     + length (part_C ''----ESP32Boundary1234'') = 320"
    by (simp add: part_A_def part_B_def part_C_def form_part_def CRLF_def quoted_def)
  have u: "[0..<3] = [0, 1, 2]"
    by (simp add: upt_rec)
  have h: "length (part_A (boundary_of (he_millis shape_env))) + 3
     + length (part_B (boundary_of (he_millis shape_env)) ''abc'')
     + length (part_C (boundary_of (he_millis shape_env))) < (2 :: nat) ^ 32"
    by (simp only: b l) simp
  show ?thesis
    using c h multipart_shape [OF c h, of of_nat "[]"]
    by (simp only: b l u String_of_nat_320) simp
qed

subsection \<open>The response\<close>

lemmas string_ops = toInt_def substring_def substring_from_def trim_def startsWith_def
  isspace_def isdigit_def Let_def

lemma status_200: "toInt (substring status_200_line 9 12) = 200"
  by (simp add: status_200_line_def string_ops)

lemma truncated_headers:
  "parseHeaders (he_header_lines truncated_env) ([], [], 0) = (''abc'', [], 10000)"
  by (simp add: truncated_env_def string_ops)

lemma closed_headers:
  "parseHeaders (he_header_lines closed_env) ([], [], 0) = ([], [], 10000)"
  by (simp add: closed_env_def string_ops)

lemma downloadLoop_le:
  "downloadLoop n ps w \<le> w + sum_list (map bp_avail ps)"
proof (induction ps arbitrary: w)
  case Nil
  then show ?case by simp
next
  case (Cons p ps)
  have "downloadLoop n ps (w + k) \<le> w + (bp_avail p + sum_list (map bp_avail ps))"
    if "k \<le> bp_avail p" for k
    using Cons [of "w + k"] that by simp
  moreover have "downloadLoop n ps w \<le> w + (bp_avail p + sum_list (map bp_avail ps))"
    using Cons [of w] by simp
  ultimately show ?case
    by (simp add: Let_def)
qed

text \<open>
  C1, as stated, fails: the response declares \<open>Content-Length: 10000\<close>, the connection
  closes after 4000 bytes of the body, and \<open>sendVoiceRequest\<close> returns \<open>true\<close> with 4000
  bytes stored.
\<close>

theorem truncated_download_counterexample:
  "parseHeaders (he_header_lines truncated_env) ([], [], 0) = (''abc'', [], 10000) \<and>
   sum_list (map bp_avail (he_body truncated_env)) = 4000 \<and>
   hr_stored (sendVoiceRequest [] (\<lambda>a. 0) 1044 [] truncated_env) = 4000 \<and>
   hr_ok (sendVoiceRequest [] (\<lambda>a. 0) 1044 [] truncated_env)"
  by (simp add: truncated_headers sendVoiceRequest_def Let_def)
     (simp add: truncated_env_def status_200)

text \<open>
  C1, amended. When the response declares \<open>Content-Length: N\<close> with \<open>N > 0\<close> and the
  connection closes after fewer than \<open>N\<close> bytes of the body, fewer than \<open>N\<close> bytes are
  stored and \<open>sendVoiceRequest\<close> returns failure exactly when no byte was stored; with at
  least one byte stored it returns success.
\<close>

theorem short_read_result:
  assumes "he_connect_ok env" and "he_response_ready env"
    and "toInt (substring (he_status_line env) 9 12) = 200"
    and "parseHeaders (he_header_lines env) (rs, [], 0) = (sid, tr, N)"
    and "0 < N"
    and "sum_list (map bp_avail (he_body env)) < nat N"
  shows "hr_stored (sendVoiceRequest cached wavData wavSize rs env) < nat N \<and>
         hr_ok (sendVoiceRequest cached wavData wavSize rs env) =
           (0 < hr_stored (sendVoiceRequest cached wavData wavSize rs env))"
proof -
  have "downloadLoop (nat N) (he_body env) 0 < nat N"
    using downloadLoop_le [of "nat N" "he_body env" 0] assms(6) by simp
  with assms show ?thesis
    by (simp add: sendVoiceRequest_def Let_def)
qed

theorem short_read_result_witness:
  "he_connect_ok closed_env \<and> he_response_ready closed_env \<and>
   toInt (substring (he_status_line closed_env) 9 12) = 200 \<and>
   parseHeaders (he_header_lines closed_env) ([], [], 0) = ([], [], 10000) \<and>
   (0 :: int) < 10000 \<and>
   sum_list (map bp_avail (he_body closed_env)) < nat 10000 \<and>
   hr_stored (sendVoiceRequest [] (\<lambda>a. 0) 1044 [] closed_env) < nat 10000 \<and>
   hr_ok (sendVoiceRequest [] (\<lambda>a. 0) 1044 [] closed_env) =
     (0 < hr_stored (sendVoiceRequest [] (\<lambda>a. 0) 1044 [] closed_env))"
proof -
  have h: "he_connect_ok closed_env" "he_response_ready closed_env"
    "toInt (substring (he_status_line closed_env) 9 12) = 200"
    "(0 :: int) < 10000"
    "sum_list (map bp_avail (he_body closed_env)) < nat 10000"
    by (simp_all add: closed_env_def status_200)
  show ?thesis
    using h closed_headers
      short_read_result [OF h(1) h(2) h(3) closed_headers h(4) h(5), of "[]" "\<lambda>a. 0" 1044]
    by simp
qed

subsection \<open>The interaction\<close>

lemma fold_buttonISR_keeps [simp]:
  "currentState (fold buttonISR ts s) = currentState s"
  "sessionId (fold buttonISR ts s) = sessionId s"
  "nvs_session_id (fold buttonISR ts s) = nvs_session_id s"
  "lastDebounceTime (fold buttonISR ts s) = lastDebounceTime s"
  "led_log (fold buttonISR ts s) = led_log s"
  "http_log (fold buttonISR ts s) = http_log s"
  by (induction ts arbitrary: s; simp add: buttonISR_def)+

lemma fold_buttonISR_pressed [simp]:
  "buttonPressed (fold buttonISR ts s) = (buttonPressed s \<or> ts \<noteq> [])"
  by (induction ts arbitrary: s) (auto simp add: buttonISR_def)

lemma hr_ok_iff: "hr_ok (sendVoiceRequest cached wavData wavSize [] h) = (\<not> request_fails h)"
  by (auto simp add: sendVoiceRequest_def request_fails_def Let_def split: prod.splits)

lemma hr_session_ok:
  "\<not> request_fails h \<Longrightarrow>
   hr_session (sendVoiceRequest cached wavData wavSize [] h) =
     fst (parseHeaders (he_header_lines h) ([], [], 0))"
  by (auto simp add: sendVoiceRequest_def request_fails_def Let_def split: prod.splits)

lemma interaction_short:
  assumes "snd (recordAudio (recordBuffer s) 44 (unat RECORD_BUFFER_SIZE)
                 (ie_record_start env) (ie_record env)) < 1000"
  shows "http_log (processVoiceInteraction env s) = http_log s \<and>
         led_log (processVoiceInteraction env s) = led_log s @ [STATE_RECORDING, STATE_IDLE] \<and>
         currentState (processVoiceInteraction env s) = STATE_IDLE \<and>
         sessionId (processVoiceInteraction env s) = sessionId s \<and>
         nvs_session_id (processVoiceInteraction env s) = nvs_session_id s \<and>
         lastDebounceTime (processVoiceInteraction env s) = lastDebounceTime s"
proof -
  obtain buf n where r: "recordAudio (recordBuffer s) 44 (unat RECORD_BUFFER_SIZE)
                 (ie_record_start env) (ie_record env) = (buf, n)"
    by (cases "recordAudio (recordBuffer s) 44 (unat RECORD_BUFFER_SIZE)
                 (ie_record_start env) (ie_record env)")
  with assms have "n < 1000"
    by simp
  with r show ?thesis
    by (simp add: processVoiceInteraction_def ledSetState_def Let_def)
qed

lemma interaction_long:
  assumes "1000 \<le> snd (recordAudio (recordBuffer s) 44 (unat RECORD_BUFFER_SIZE)
                 (ie_record_start env) (ie_record env))"
  shows "sessionId (processVoiceInteraction env s) =
           (if \<not> request_fails (ie_http env) \<and>
               fst (parseHeaders (he_header_lines (ie_http env)) ([], [], 0)) \<noteq> [] \<and>
               fst (parseHeaders (he_header_lines (ie_http env)) ([], [], 0)) \<noteq> sessionId s
            then fst (parseHeaders (he_header_lines (ie_http env)) ([], [], 0))
            else sessionId s) \<and>
         nvs_session_id (processVoiceInteraction env s) =
           (if \<not> request_fails (ie_http env) \<and>
               fst (parseHeaders (he_header_lines (ie_http env)) ([], [], 0)) \<noteq> [] \<and>
               fst (parseHeaders (he_header_lines (ie_http env)) ([], [], 0)) \<noteq> sessionId s
            then fst (parseHeaders (he_header_lines (ie_http env)) ([], [], 0))
            else nvs_session_id s) \<and>
         length (http_log (processVoiceInteraction env s)) = Suc (length (http_log s)) \<and>
         currentState (processVoiceInteraction env s) = STATE_IDLE \<and>
         lastDebounceTime (processVoiceInteraction env s) = lastDebounceTime s \<and>
         (\<exists>rest. led_log (processVoiceInteraction env s) =
                   led_log s @ STATE_RECORDING # STATE_PROCESSING # rest \<and>
                 STATE_RECORDING \<notin> set rest)"
proof -
  obtain buf n where r: "recordAudio (recordBuffer s) 44 (unat RECORD_BUFFER_SIZE)
                 (ie_record_start env) (ie_record env) = (buf, n)"
    by (cases "recordAudio (recordBuffer s) 44 (unat RECORD_BUFFER_SIZE)
                 (ie_record_start env) (ie_record env)")
  with assms have "\<not> n < 1000"
    by simp
  with r show ?thesis
    by (simp add: processVoiceInteraction_def ledSetState_def saveSessionId_def Let_def
          hr_ok_iff hr_session_ok)
qed

lemma record_buffer_size: "unat RECORD_BUFFER_SIZE = 960000"
  by (simp add: RECORD_BUFFER_SIZE_def SAMPLE_RATE_def RECORD_TIME_MAX_SEC_def)

lemma tap_capture:
  "snd (recordAudio buf 44 (unat RECORD_BUFFER_SIZE) 0 tap_passes) = 600"
  by (simp add: recordAudio_def tap_passes_def i2s_read_def Let_def record_buffer_size
        RECORD_TIME_MAX_SEC_def)

lemma held_capture:
  "snd (recordAudio buf 44 (unat RECORD_BUFFER_SIZE) 0 held_passes) = 2000"
  by (simp add: recordAudio_def held_passes_def i2s_read_def Let_def record_buffer_size
        RECORD_TIME_MAX_SEC_def)

text \<open>
  C6. Whenever \<open>recordAudio\<close> returns fewer than 1000 bytes, \<open>processVoiceInteraction\<close>
  never reaches \<open>sendVoiceRequest\<close> (nothing is added to the log of requests) and the
  states it passes through are RECORDING and then IDLE, with nothing in between.
\<close>

theorem min_capture_gate:
  assumes "snd (recordAudio (recordBuffer s) 44 (unat RECORD_BUFFER_SIZE)
                 (ie_record_start env) (ie_record env)) < 1000"
  shows "http_log (processVoiceInteraction env s) = http_log s \<and>
         led_log (processVoiceInteraction env s) = led_log s @ [STATE_RECORDING, STATE_IDLE] \<and>
         currentState (processVoiceInteraction env s) = STATE_IDLE"
  using interaction_short [OF assms] by simp

theorem min_capture_gate_witness:
  "snd (recordAudio (recordBuffer idle_sys) 44 (unat RECORD_BUFFER_SIZE)
         (ie_record_start (interaction tap_passes complete_env))
         (ie_record (interaction tap_passes complete_env))) < 1000 \<and>
   http_log (processVoiceInteraction (interaction tap_passes complete_env) idle_sys) = [] \<and>
   led_log (processVoiceInteraction (interaction tap_passes complete_env) idle_sys)
     = [STATE_RECORDING, STATE_IDLE] \<and>
   currentState (processVoiceInteraction (interaction tap_passes complete_env) idle_sys)
     = STATE_IDLE"
proof -
  have h: "snd (recordAudio (recordBuffer idle_sys) 44 (unat RECORD_BUFFER_SIZE)
         (ie_record_start (interaction tap_passes complete_env))
         (ie_record (interaction tap_passes complete_env))) < 1000"
    by (simp add: interaction_def tap_capture)
  show ?thesis
    using h min_capture_gate [OF h] by (simp add: idle_sys_def)
qed

subsection \<open>The session identifier\<close>

lemma truncated_not_failed: "\<not> request_fails truncated_env"
  by (simp add: request_fails_def truncated_headers) (simp add: truncated_env_def status_200)

lemma error_failed: "request_fails error_env"
  by (simp add: request_fails_def error_env_def string_ops)

lemma complete_headers:
  "parseHeaders (he_header_lines complete_env) ([], [], 0) = (''abc'', [], 5000)"
  by (simp add: complete_env_def string_ops)

lemma complete_not_failed: "\<not> request_fails complete_env"
  by (simp add: request_fails_def complete_headers) (simp add: complete_env_def status_200)

lemma held_long:
  "1000 \<le> snd (recordAudio (recordBuffer idle_sys) 44 (unat RECORD_BUFFER_SIZE)
                (ie_record_start (interaction held_passes h))
                (ie_record (interaction held_passes h)))"
  by (simp add: interaction_def held_capture)

text \<open>
  C7, as stated, fails for a truncated body: the response carries \<open>X-Session-Id: abc\<close>
  and declares 10000 bytes, the connection closes after 4000, and the interaction
  replaces the identifier \<open>old\<close> by \<open>abc\<close> in RAM and in the preferences.
\<close>

theorem session_truncated_counterexample:
  "parseHeaders (he_header_lines truncated_env) ([], [], 0) = (''abc'', [], 10000) \<and>
   sum_list (map bp_avail (he_body truncated_env)) = 4000 \<and>
   sessionId idle_sys = ''old'' \<and> nvs_session_id idle_sys = ''old'' \<and>
   sessionId (processVoiceInteraction (interaction held_passes truncated_env) idle_sys)
     = ''abc'' \<and>
   nvs_session_id (processVoiceInteraction (interaction held_passes truncated_env) idle_sys)
     = ''abc''"
proof -
  have "ie_http (interaction held_passes truncated_env) = truncated_env"
    by (simp add: interaction_def)
  then show ?thesis
    using interaction_long [OF held_long [of truncated_env]]
    by (simp add: truncated_not_failed truncated_headers)
       (simp add: idle_sys_def truncated_env_def)
qed

text \<open>
  C7, amended. Whenever the request fails (connection refused, no response in time, a
  status other than 200, \<open>Content-Length\<close> missing or not positive, the file not opened, no
  byte of the body stored), the session identifier in RAM and the one in the preferences
  are unchanged; and either of them changes only when the request does not fail and the
  identifier of the response is not empty and differs from the cached one, and then both
  become that identifier. A body cut short after at least one stored byte is not a
  failure.
\<close>

theorem session_id_update:
  "(request_fails (ie_http env) \<longrightarrow>
      sessionId (processVoiceInteraction env s) = sessionId s \<and>
      nvs_session_id (processVoiceInteraction env s) = nvs_session_id s) \<and>
   (sessionId (processVoiceInteraction env s) \<noteq> sessionId s \<or>
    nvs_session_id (processVoiceInteraction env s) \<noteq> nvs_session_id s \<longrightarrow>
      \<not> request_fails (ie_http env) \<and>
      fst (parseHeaders (he_header_lines (ie_http env)) ([], [], 0)) \<noteq> [] \<and>
      fst (parseHeaders (he_header_lines (ie_http env)) ([], [], 0)) \<noteq> sessionId s \<and>
      sessionId (processVoiceInteraction env s)
        = fst (parseHeaders (he_header_lines (ie_http env)) ([], [], 0)) \<and>
      nvs_session_id (processVoiceInteraction env s)
        = fst (parseHeaders (he_header_lines (ie_http env)) ([], [], 0)))"
proof (cases "snd (recordAudio (recordBuffer s) 44 (unat RECORD_BUFFER_SIZE)
                 (ie_record_start env) (ie_record env)) < 1000")
  case True
  from interaction_short [OF True] show ?thesis
    by simp
next
  case False
  then have l: "1000 \<le> snd (recordAudio (recordBuffer s) 44 (unat RECORD_BUFFER_SIZE)
                 (ie_record_start env) (ie_record env))"
    by simp
  let ?new = "fst (parseHeaders (he_header_lines (ie_http env)) ([], [], 0))"
  show ?thesis
  proof (cases "\<not> request_fails (ie_http env) \<and> ?new \<noteq> [] \<and> ?new \<noteq> sessionId s")
    case True
    with interaction_long [OF l] have
      "sessionId (processVoiceInteraction env s) = ?new"
      "nvs_session_id (processVoiceInteraction env s) = ?new"
      by simp_all
    with True show ?thesis
      by simp
  next
    case False
    with interaction_long [OF l] have
      "sessionId (processVoiceInteraction env s) = sessionId s"
      "nvs_session_id (processVoiceInteraction env s) = nvs_session_id s"
      by simp_all
    then show ?thesis
      by simp
  qed
qed

theorem session_id_update_witness:
  "request_fails (ie_http (interaction held_passes error_env)) \<and>
   sessionId (processVoiceInteraction (interaction held_passes error_env) idle_sys)
     = sessionId idle_sys \<and>
   nvs_session_id (processVoiceInteraction (interaction held_passes error_env) idle_sys)
     = nvs_session_id idle_sys \<and>
   sessionId (processVoiceInteraction (interaction held_passes complete_env) idle_sys)
     \<noteq> sessionId idle_sys \<and>
   \<not> request_fails (ie_http (interaction held_passes complete_env)) \<and>
   sessionId (processVoiceInteraction (interaction held_passes complete_env) idle_sys)
     = ''abc'' \<and>
   nvs_session_id (processVoiceInteraction (interaction held_passes complete_env) idle_sys)
     = ''abc''"
proof -
  let ?e = "interaction held_passes error_env"
  let ?c = "interaction held_passes complete_env"
  have e: "request_fails (ie_http ?e)"
    by (simp add: interaction_def error_failed)
  have c: "ie_http ?c = complete_env"
    by (simp add: interaction_def)
  have "sessionId (processVoiceInteraction ?c idle_sys) = ''abc''"
    using interaction_long [OF held_long [of complete_env]]
    by (simp add: c complete_not_failed complete_headers)
  then have n: "sessionId (processVoiceInteraction ?c idle_sys) \<noteq> sessionId idle_sys"
    by (simp add: idle_sys_def)
  from session_id_update [of ?e idle_sys] e have
    1: "sessionId (processVoiceInteraction ?e idle_sys) = sessionId idle_sys \<and>
        nvs_session_id (processVoiceInteraction ?e idle_sys) = nvs_session_id idle_sys"
    by blast
  from session_id_update [of ?c idle_sys] n have
    2: "\<not> request_fails (ie_http ?c) \<and>
        sessionId (processVoiceInteraction ?c idle_sys)
          = fst (parseHeaders (he_header_lines (ie_http ?c)) ([], [], 0)) \<and>
        nvs_session_id (processVoiceInteraction ?c idle_sys)
          = fst (parseHeaders (he_header_lines (ie_http ?c)) ([], [], 0))"
    by blast
  have h: "fst (parseHeaders (he_header_lines (ie_http ?c)) ([], [], 0)) = ''abc''"
    by (simp only: c complete_headers fst_conv)
  from e 1 n 2 show ?thesis
    by (simp only: h) simp
qed

subsection \<open>The main loop\<close>

lemma interaction_pressed:
  "buttonPressed (processVoiceInteraction env s) = (buttonPressed s \<or> ie_isr env \<noteq> [])"
proof -
  obtain buf n where r: "recordAudio (recordBuffer s) 44 (unat RECORD_BUFFER_SIZE)
                 (ie_record_start env) (ie_record env) = (buf, n)"
    by (cases "recordAudio (recordBuffer s) 44 (unat RECORD_BUFFER_SIZE)
                 (ie_record_start env) (ie_record env)")
  then show ?thesis
    by (simp add: processVoiceInteraction_def ledSetState_def saveSessionId_def Let_def)
qed

lemma interaction_general:
  "currentState (processVoiceInteraction env s) = STATE_IDLE \<and>
   lastDebounceTime (processVoiceInteraction env s) = lastDebounceTime s \<and>
   (\<exists>rest. led_log (processVoiceInteraction env s) = led_log s @ STATE_RECORDING # rest \<and>
           STATE_RECORDING \<notin> set rest)"
proof (cases "snd (recordAudio (recordBuffer s) 44 (unat RECORD_BUFFER_SIZE)
                 (ie_record_start env) (ie_record env)) < 1000")
  case True
  from interaction_short [OF True] show ?thesis
    by simp
next
  case False
  then have "1000 \<le> snd (recordAudio (recordBuffer s) 44 (unat RECORD_BUFFER_SIZE)
                 (ie_record_start env) (ie_record env))"
    by simp
  from interaction_long [OF this] show ?thesis
    by auto
qed

lemma interaction_count:
  "count_list (led_log (processVoiceInteraction env s)) STATE_RECORDING =
     Suc (count_list (led_log s) STATE_RECORDING)"
proof -
  from interaction_general [of env s] obtain rest where
    "led_log (processVoiceInteraction env s) = led_log s @ STATE_RECORDING # rest"
    "STATE_RECORDING \<notin> set rest"
    by blast
  then show ?thesis
    by (simp add: count_list_0_iff)
qed

lemma loop_wifi_fields:
  "currentState (loop_wifi env s) =
     (if \<not> le_wifi_up env \<and> currentState s \<noteq> STATE_CONNECTING
      then (if le_wifi_up_after env then STATE_IDLE else STATE_CONNECTING)
      else currentState s)"
  "buttonPressed (loop_wifi env s) =
     (if \<not> le_wifi_up env \<and> currentState s \<noteq> STATE_CONNECTING
      then buttonPressed s \<or> le_wifi_isr env \<noteq> []
      else buttonPressed s)"
  "lastDebounceTime (loop_wifi env s) = lastDebounceTime s"
  "led_log (loop_wifi env s) =
     led_log s @
     (if \<not> le_wifi_up env \<and> currentState s \<noteq> STATE_CONNECTING
      then STATE_CONNECTING # (if le_wifi_up_after env then [STATE_IDLE] else [])
      else [])"
  by (simp_all add: loop_wifi_def ledSetState_def Let_def)

lemma loop_button_entered:
  "entered env s \<Longrightarrow>
   loop_button env (loop_wifi env s) =
     processVoiceInteraction (le_interaction env)
       ((loop_wifi env s)\<lparr>buttonPressed := False, lastDebounceTime := le_millis_set env\<rparr>)"
  by (simp add: entered_def loop_button_def Let_def loop_wifi_fields(3))

lemma loop_button_not_entered:
  "\<not> entered env s \<Longrightarrow>
   loop_button env (loop_wifi env s) =
     (if buttonPressed (loop_wifi env s) \<and> currentState (loop_wifi env s) = STATE_IDLE
      then (loop_wifi env s)\<lparr>buttonPressed := False\<rparr>
      else loop_wifi env s)"
  by (auto simp add: entered_def loop_button_def Let_def loop_wifi_fields(3))

lemma loop_fields:
  "count_list (led_log (loop env s)) STATE_RECORDING =
     count_list (led_log s) STATE_RECORDING + (if entered env s then 1 else 0)"
  "lastDebounceTime (loop env s) =
     (if entered env s then le_millis_set env else lastDebounceTime s)"
  "currentState (loop env s) = currentState (loop_wifi env s)"
  "buttonPressed (loop env s) =
     ((if buttonPressed (loop_wifi env s) \<and> currentState (loop_wifi env s) = STATE_IDLE
       then entered env s \<and> ie_isr (le_interaction env) \<noteq> []
       else buttonPressed (loop_wifi env s)) \<or> le_tail_isr env \<noteq> [])"
proof -
  have w: "count_list (led_log (loop_wifi env s)) STATE_RECORDING
             = count_list (led_log s) STATE_RECORDING"
    by (simp add: loop_wifi_fields)
  show "count_list (led_log (loop env s)) STATE_RECORDING =
     count_list (led_log s) STATE_RECORDING + (if entered env s then 1 else 0)"
    by (cases "entered env s")
       (simp_all add: loop_def loop_button_entered loop_button_not_entered interaction_count w)
  show "lastDebounceTime (loop env s) =
     (if entered env s then le_millis_set env else lastDebounceTime s)"
    by (cases "entered env s")
       (simp_all add: loop_def loop_button_entered loop_button_not_entered
          interaction_general loop_wifi_fields(3))
  show "currentState (loop env s) = currentState (loop_wifi env s)"
    by (cases "entered env s")
       (auto simp add: loop_def loop_button_entered loop_button_not_entered
          interaction_general entered_def)
  show "buttonPressed (loop env s) =
     ((if buttonPressed (loop_wifi env s) \<and> currentState (loop_wifi env s) = STATE_IDLE
       then entered env s \<and> ie_isr (le_interaction env) \<noteq> []
       else buttonPressed (loop_wifi env s)) \<or> le_tail_isr env \<noteq> [])"
    by (cases "entered env s")
       (auto simp add: loop_def loop_button_entered loop_button_not_entered
          interaction_pressed entered_def)
qed

lemma run_count_mono:
  "count_list (led_log s) STATE_RECORDING \<le> count_list (led_log (run envs s)) STATE_RECORDING"
proof (induction envs arbitrary: s)
  case Nil
  then show ?case by simp
next
  case (Cons env envs)
  have "count_list (led_log s) STATE_RECORDING
          \<le> count_list (led_log (loop env s)) STATE_RECORDING"
    by (simp add: loop_fields(1))
  also note Cons [of "loop env s"]
  finally show ?case by simp
qed

lemma run_quiet:
  "count_list (led_log (run envs s)) STATE_RECORDING = count_list (led_log s) STATE_RECORDING
   \<Longrightarrow> lastDebounceTime (run envs s) = lastDebounceTime s"
proof (induction envs arbitrary: s)
  case Nil
  then show ?case by simp
next
  case (Cons env envs)
  have 1: "count_list (led_log s) STATE_RECORDING
          \<le> count_list (led_log (loop env s)) STATE_RECORDING"
    by (simp add: loop_fields(1))
  have 2: "count_list (led_log (loop env s)) STATE_RECORDING
          \<le> count_list (led_log (run envs (loop env s))) STATE_RECORDING"
    by (rule run_count_mono)
  from Cons.prems 1 2 have
    a: "count_list (led_log (loop env s)) STATE_RECORDING = count_list (led_log s) STATE_RECORDING"
    and b: "count_list (led_log (run envs (loop env s))) STATE_RECORDING
              = count_list (led_log (loop env s)) STATE_RECORDING"
    by simp_all
  from a have "\<not> entered env s"
    by (simp add: loop_fields(1) split: if_splits)
  then have "lastDebounceTime (loop env s) = lastDebounceTime s"
    by (simp add: loop_fields(2))
  with Cons.IH [OF b] show ?case
    by simp
qed

lemma loop_wifi_up: "le_wifi_up env \<Longrightarrow> loop_wifi env s = s"
  by (simp add: loop_wifi_def)

lemma edge_pass_not_entered: "\<not> entered edge_pass idle_sys"
  by (simp add: entered_def loop_wifi_up edge_pass_def idle_sys_def)

lemma edge_pass_state:
  "buttonPressed (loop edge_pass idle_sys) \<and>
   currentState (loop edge_pass idle_sys) = STATE_IDLE \<and>
   lastDebounceTime (loop edge_pass idle_sys) = 0 \<and>
   count_list (led_log (loop edge_pass idle_sys)) STATE_RECORDING = 0"
  using loop_fields [of edge_pass idle_sys] edge_pass_not_entered
  by (simp add: loop_wifi_up edge_pass_def idle_sys_def)

lemma press_pass_entered: "entered press_pass (loop edge_pass idle_sys)"
  using edge_pass_state
  by (simp add: entered_def loop_wifi_up press_pass_def BUTTON_DEBOUNCE_MS_def)

lemma press_pass_state:
  "buttonPressed (loop press_pass (loop edge_pass idle_sys)) \<and>
   currentState (loop press_pass (loop edge_pass idle_sys)) = STATE_IDLE \<and>
   lastDebounceTime (loop press_pass (loop edge_pass idle_sys)) = 1005 \<and>
   count_list (led_log (loop press_pass (loop edge_pass idle_sys))) STATE_RECORDING = 1"
  using loop_fields [of press_pass "loop edge_pass idle_sys"] press_pass_entered edge_pass_state
  by (simp add: loop_wifi_up press_pass_def bounce_interaction_def)

lemma stale_pass_entered: "entered stale_pass (loop press_pass (loop edge_pass idle_sys))"
  using press_pass_state
  by (simp add: entered_def loop_wifi_up stale_pass_def BUTTON_DEBOUNCE_MS_def)

text \<open>
  C8, as stated, fails: the button is pressed at 1000 ms and the press is taken at
  1005 ms; the contact bounces at 1020 ms, within \<open>BUTTON_DEBOUNCE_MS\<close> of the first edge,
  while the interaction runs; the flag set by the second edge is still set when the
  controller is back in IDLE, and the pass at 9000 ms enters RECORDING a second time.
\<close>

theorem debounce_counterexample:
  "(1020 :: u32) - 1000 \<le> BUTTON_DEBOUNCE_MS \<and>
   buttonPressed idle_sys = False \<and>
   edges_of edge_pass @ edges_of press_pass @ edges_of stale_pass = [1000, 1020] \<and>
   count_list (led_log idle_sys) STATE_RECORDING = 0 \<and>
   count_list (led_log (run [edge_pass, press_pass, stale_pass] idle_sys)) STATE_RECORDING = 2"
proof -
  have "edges_of edge_pass @ edges_of press_pass @ edges_of stale_pass = [1000, 1020]"
    by (simp add: edges_of_def edge_pass_def press_pass_def stale_pass_def
          quiet_interaction_def bounce_interaction_def)
  moreover have
    "count_list (led_log (run [edge_pass, press_pass, stale_pass] idle_sys)) STATE_RECORDING = 2"
    using loop_fields(1) [of stale_pass "loop press_pass (loop edge_pass idle_sys)"]
      stale_pass_entered press_pass_state
    by simp
  ultimately show ?thesis
    by (simp add: BUTTON_DEBOUNCE_MS_def idle_sys_def)
qed

lemma debounce_interval:
  assumes "count_list (led_log (loop e1 s)) STATE_RECORDING
             = Suc (count_list (led_log s) STATE_RECORDING)"
    and "count_list (led_log (run es (loop e1 s))) STATE_RECORDING
             = count_list (led_log (loop e1 s)) STATE_RECORDING"
    and "count_list (led_log (loop e2 (run es (loop e1 s)))) STATE_RECORDING
             = Suc (count_list (led_log (run es (loop e1 s))) STATE_RECORDING)"
  shows "le_millis_check e2 - le_millis_set e1 > BUTTON_DEBOUNCE_MS"
proof -
  from assms(1) have "entered e1 s"
    by (simp add: loop_fields(1) split: if_splits)
  then have "lastDebounceTime (loop e1 s) = le_millis_set e1"
    by (simp add: loop_fields(2))
  with run_quiet [OF assms(2)] have l: "lastDebounceTime (run es (loop e1 s)) = le_millis_set e1"
    by simp
  from assms(3) have "entered e2 (run es (loop e1 s))"
    by (simp add: loop_fields(1) split: if_splits)
  with l show ?thesis
    by (simp add: entered_def)
qed



lemma edge_groups_pending:
  "edge_groups b envs \<le> (if b then 1 else 0) + edge_groups b' envs"
  by (cases envs) simp_all

lemma loop_edge_groups:
  "count_list (led_log (loop env s)) STATE_RECORDING
     + edge_groups (buttonPressed (loop env s)) envs
   \<le> count_list (led_log s) STATE_RECORDING + edge_groups (buttonPressed s) (env # envs)"
proof -
  let ?late = "ie_isr (le_interaction env) @ le_tail_isr env \<noteq> []"
  let ?early = "buttonPressed s \<or> le_wifi_isr env \<noteq> []"
  have w: "buttonPressed (loop_wifi env s) \<longrightarrow> ?early"
    by (simp add: loop_wifi_fields split: if_splits)
  show ?thesis
  proof (cases "entered env s")
    case True
    then have "buttonPressed (loop_wifi env s)" "currentState (loop_wifi env s) = STATE_IDLE"
      by (simp_all add: entered_def)
    with True w have "?early" "buttonPressed (loop env s) = ?late"
      by (auto simp add: loop_fields(4))
    with True show ?thesis
      by (simp add: loop_fields(1))
  next
    case False
    have "edge_groups (buttonPressed (loop env s)) envs
            \<le> (if ?early then 1 else 0) + edge_groups ?late envs"
    proof (cases "buttonPressed (loop env s) \<longrightarrow> ?late")
      case True
      then show ?thesis
        using edge_groups_pending [of "buttonPressed (loop env s)" envs ?late]
          edge_groups_pending [of False envs ?late]
        by (cases "buttonPressed (loop env s)") auto
    next
      case l: False
      then have "buttonPressed (loop_wifi env s)"
        using False by (auto simp add: loop_fields(4) split: if_splits)
      with w have "?early"
        by simp
      with edge_groups_pending [of "buttonPressed (loop env s)" envs ?late] show ?thesis
        by (auto split: if_splits)
    qed
    with False show ?thesis
      by (simp add: loop_fields(1))
  qed
qed

lemma run_edge_groups:
  "count_list (led_log (run envs s)) STATE_RECORDING
     \<le> count_list (led_log s) STATE_RECORDING + edge_groups (buttonPressed s) envs"
proof (induction envs arbitrary: s)
  case Nil
  then show ?case by simp
next
  case (Cons env envs)
  have "count_list (led_log (run envs (loop env s))) STATE_RECORDING
          \<le> count_list (led_log (loop env s)) STATE_RECORDING
              + edge_groups (buttonPressed (loop env s)) envs"
    by (rule Cons.IH)
  also note loop_edge_groups [of env s envs]
  finally show ?case
    by simp
qed

lemma twin_edge_not_entered: "\<not> entered twin_edge_pass idle_sys"
  by (simp add: entered_def loop_wifi_up twin_edge_pass_def idle_sys_def)

lemma twin_edge_state:
  "buttonPressed (loop twin_edge_pass idle_sys) \<and>
   currentState (loop twin_edge_pass idle_sys) = STATE_IDLE \<and>
   lastDebounceTime (loop twin_edge_pass idle_sys) = 0 \<and>
   count_list (led_log (loop twin_edge_pass idle_sys)) STATE_RECORDING = 0"
  using loop_fields [of twin_edge_pass idle_sys] twin_edge_not_entered
  by (simp add: loop_wifi_up twin_edge_pass_def idle_sys_def)

lemma take_pass_entered: "entered take_pass (loop twin_edge_pass idle_sys)"
  using twin_edge_state
  by (simp add: entered_def loop_wifi_up take_pass_def BUTTON_DEBOUNCE_MS_def)

lemma take_pass_state:
  "\<not> buttonPressed (loop take_pass (loop twin_edge_pass idle_sys)) \<and>
   count_list (led_log (loop take_pass (loop twin_edge_pass idle_sys))) STATE_RECORDING = 1"
  using loop_fields [of take_pass "loop twin_edge_pass idle_sys"] take_pass_entered
    twin_edge_state
  by (simp add: loop_wifi_up take_pass_def bounce_interaction_def)

lemma twin_stale_not_entered:
  "\<not> entered stale_pass (loop take_pass (loop twin_edge_pass idle_sys))"
  using take_pass_state
  by (simp add: entered_def loop_wifi_up stale_pass_def)

lemma twin_edge_count:
  "count_list (led_log (run [twin_edge_pass, take_pass, stale_pass] idle_sys)) STATE_RECORDING = 1"
  using loop_fields(1) [of stale_pass "loop take_pass (loop twin_edge_pass idle_sys)"]
    twin_stale_not_entered take_pass_state
  by simp

lemma twin_edge_groups:
  "edge_groups (buttonPressed idle_sys) [twin_edge_pass, take_pass, stale_pass] = 1"
  by (simp add: idle_sys_def twin_edge_pass_def take_pass_def stale_pass_def
        quiet_interaction_def bounce_interaction_def)

text \<open>
  C8, amended. The button edges that arrive between two consecutive button checks of
  \<open>loop\<close> are latched together and lead to at most one entry into RECORDING, whatever
  their timestamps: in every run the number of entries is at most the number of button
  checks before which at least one edge has arrived since the check before. Between two
  entries with none in between, more than \<open>BUTTON_DEBOUNCE_MS\<close> pass on the controller's
  clock: \<open>millis()\<close> at the debounce check of the second exceeds the \<open>millis()\<close> stored in
  \<open>lastDebounceTime\<close> at the first by more than 50, as an unsigned 32-bit difference. So
  two edges within 50 ms of each other lead to two entries only when a button check falls
  between them and the second is checked more than 50 ms after the first was accepted.
\<close>

theorem button_debounce:
  "count_list (led_log (run envs s)) STATE_RECORDING
     \<le> count_list (led_log s) STATE_RECORDING + edge_groups (buttonPressed s) envs \<and>
   (count_list (led_log (loop e1 s)) STATE_RECORDING
      = Suc (count_list (led_log s) STATE_RECORDING) \<and>
    count_list (led_log (run es (loop e1 s))) STATE_RECORDING
      = count_list (led_log (loop e1 s)) STATE_RECORDING \<and>
    count_list (led_log (loop e2 (run es (loop e1 s)))) STATE_RECORDING
      = Suc (count_list (led_log (run es (loop e1 s))) STATE_RECORDING)
    \<longrightarrow> le_millis_check e2 - le_millis_set e1 > BUTTON_DEBOUNCE_MS)"
  using run_edge_groups [of envs s] debounce_interval [of e1 s es e2]
  by blast

theorem button_debounce_witness:
  "edges_of twin_edge_pass @ edges_of take_pass @ edges_of stale_pass = [1000, 1020] \<and>
   edge_groups (buttonPressed idle_sys) [twin_edge_pass, take_pass, stale_pass] = 1 \<and>
   count_list (led_log (run [twin_edge_pass, take_pass, stale_pass] idle_sys)) STATE_RECORDING
     \<le> count_list (led_log idle_sys) STATE_RECORDING + 1 \<and>
   count_list (led_log (run [twin_edge_pass, take_pass, stale_pass] idle_sys)) STATE_RECORDING = 1 \<and>
   count_list (led_log (loop press_pass (loop edge_pass idle_sys))) STATE_RECORDING
     = Suc (count_list (led_log (loop edge_pass idle_sys)) STATE_RECORDING) \<and>
   count_list (led_log (run [] (loop press_pass (loop edge_pass idle_sys)))) STATE_RECORDING
     = count_list (led_log (loop press_pass (loop edge_pass idle_sys))) STATE_RECORDING \<and>
   count_list (led_log (loop stale_pass (run [] (loop press_pass (loop edge_pass idle_sys)))))
       STATE_RECORDING
     = Suc (count_list (led_log (run [] (loop press_pass (loop edge_pass idle_sys))))
              STATE_RECORDING) \<and>
   le_millis_check stale_pass - le_millis_set press_pass > BUTTON_DEBOUNCE_MS"
proof -
  let ?s1 = "loop edge_pass idle_sys"
  have e: "edges_of twin_edge_pass @ edges_of take_pass @ edges_of stale_pass = [1000, 1020]"
    by (simp add: edges_of_def twin_edge_pass_def take_pass_def stale_pass_def
          quiet_interaction_def bounce_interaction_def)
  have b: "count_list (led_log (run [twin_edge_pass, take_pass, stale_pass] idle_sys))
             STATE_RECORDING
           \<le> count_list (led_log idle_sys) STATE_RECORDING + 1"
    using button_debounce [of "[twin_edge_pass, take_pass, stale_pass]" idle_sys]
    by (simp only: twin_edge_groups)
  have 1: "count_list (led_log (loop press_pass ?s1)) STATE_RECORDING
             = Suc (count_list (led_log ?s1) STATE_RECORDING)"
    using press_pass_state edge_pass_state by simp
  have 2: "count_list (led_log (run [] (loop press_pass ?s1))) STATE_RECORDING
             = count_list (led_log (loop press_pass ?s1)) STATE_RECORDING"
    by simp
  have 3: "count_list (led_log (loop stale_pass (run [] (loop press_pass ?s1)))) STATE_RECORDING
             = Suc (count_list (led_log (run [] (loop press_pass ?s1))) STATE_RECORDING)"
    using loop_fields(1) [of stale_pass "loop press_pass ?s1"] stale_pass_entered by simp
  have w: "le_millis_check stale_pass - le_millis_set press_pass > BUTTON_DEBOUNCE_MS"
    using button_debounce [of "[]" ?s1 press_pass "[]" stale_pass] 1 2 3
    by blast
  from e twin_edge_groups b twin_edge_count 1 2 3 w show ?thesis
    by (intro conjI)
qed

subsection \<open>Presses while connecting\<close>





end
